theory Spec2Isabelle
  imports Main
begin

section \<open>Time, text and database outcomes\<close>

text \<open>
  A timestamp is the number of milliseconds since the epoch, the value of
  \<^verbatim>\<open>Date.getTime()\<close>. The database compares \<^verbatim>\<open>timestamptz\<close> columns with the
  ISO rendering of such a value, which is the comparison of the two instants. All clock
  readings of one pass are taken to be the same instant \<open>now\<close>.
\<close>

type_synonym time = int

text \<open>The three emoji of the notification titles, as their UTF-8 bytes.\<close>

definition siren :: string where
  "siren = [CHR 0xF0, CHR 0x9F, CHR 0x9A, CHR 0xA8]"

definition chart :: string where
  "chart = [CHR 0xF0, CHR 0x9F, CHR 0x93, CHR 0x88]"

definition telephone :: string where
  "telephone = [CHR 0xF0, CHR 0x9F, CHR 0x93, CHR 0x9E]"

text \<open>The decimal rendering a template literal gives a count.\<close>

fun show_nat :: "nat \<Rightarrow> string" where
  "show_nat n =
     (if n < 10 then [char_of (48 + n)]
      else show_nat (n div 10) @ [char_of (48 + n mod 10)])"

declare show_nat.simps [simp del]

text \<open>
  Every awaited database call has three outcomes: it resolves with data, it resolves with
  an \<^verbatim>\<open>error\<close> object (and \<^verbatim>\<open>data\<close> null), or the promise rejects and the
  enclosing \<^verbatim>\<open>catch\<close> runs. The string is the error's message.
\<close>

datatype fault = NoFault | ErrorResult string | Thrown string

text \<open>A line written with \<^verbatim>\<open>console.error\<close>: its text and the error's message.\<close>

type_synonym log = "(string \<times> string) list"

section \<open>Tables\<close>

record lead =
  lead_id :: string
  user_id :: "string option"
  name :: string
  company :: string
  status :: string
  call_status :: string
  last_contact :: time
  created_at :: time

text \<open>A row of \<^verbatim>\<open>user_roles\<close>: the two columns the sources read.\<close>

record user_role =
  role_user_id :: string
  role_email :: string

record activity_log =
  user_email :: string
  timestamp :: time

text \<open>The columns a generator selects from a lead for a notification's sample.\<close>

record lead_summary =
  sum_id :: string
  sum_name :: string
  sum_company :: string
  sum_last_contact :: "time option"
  sum_call_status :: "string option"
  sum_created_at :: "time option"

datatype notification_data =
    BucketData nat "lead_summary list" string nat string
  | LeadsData "lead_summary list"
  | AfkData "time option" nat string

text \<open>
  \<open>BucketData count leads key days notification_type\<close> is the object
  \<^verbatim>\<open>{count, leads, days_overdue | days_old, notification_type}\<close>, \<open>key\<close> naming its
  third field; \<open>LeadsData\<close> is \<^verbatim>\<open>{leads}\<close>; \<open>AfkData\<close> is
  \<^verbatim>\<open>{last_activity, total_actions_today, notification_type}\<close>.
\<close>

record notification =
  ntype :: string
  title :: string
  message :: string
  salesman_id :: string
  salesman_email :: string
  priority :: string
  data :: notification_data

text \<open>
  Modelled from the spec: the declaration of the table \<^verbatim>\<open>admin_notifications\<close> is not
  in the sources. A stored row is the inserted object, with \<^verbatim>\<open>is_read\<close> as the insert
  wrote it, an \<^verbatim>\<open>id\<close> and a \<^verbatim>\<open>created_at\<close> that the database fills in: the time of
  the insert, and an identifier that is fresh and never the nil identifier
  \<^verbatim>\<open>00000000-0000-0000-0000-000000000000\<close>. Identifiers are numbered, the nil one is 0.
\<close>

type_synonym uuid = nat

definition nil_uuid :: uuid where
  "nil_uuid = 0"

record notification_row =
  row_id :: uuid
  row_created_at :: time
  is_read :: bool
  row :: notification

record db =
  leads :: "lead list"
  user_roles :: "user_role list"
  activity_logs :: "activity_log list"
  admin_notifications :: "notification_row list"
  next_id :: nat

text \<open>\<^verbatim>\<open>.insert(objects)\<close> into \<^verbatim>\<open>admin_notifications\<close>, when it succeeds.\<close>

fun stamp :: "time \<Rightarrow> nat \<Rightarrow> (notification \<times> bool) list \<Rightarrow> notification_row list" where
  "stamp now k [] = []"
| "stamp now k ((n, r) # ns) =
     \<lparr>row_id = Suc k, row_created_at = now, is_read = r, row = n\<rparr> # stamp now (Suc k) ns"

definition insert_rows :: "time \<Rightarrow> (notification \<times> bool) list \<Rightarrow> db \<Rightarrow> db" where
  "insert_rows now objs d =
     d\<lparr>admin_notifications := admin_notifications d @ stamp now (next_id d) objs,
       next_id := next_id d + length objs\<rparr>"

text \<open>\<^verbatim>\<open>.delete()\<close> with a filter removes the rows the filter selects, when it succeeds.\<close>

definition delete_rows :: "(notification_row \<Rightarrow> bool) \<Rightarrow> db \<Rightarrow> db" where
  "delete_rows sel d = d\<lparr>admin_notifications := filter (\<lambda>r. \<not> sel r) (admin_notifications d)\<rparr>"

text \<open>\<^verbatim>\<open>[...new Set(xs)]\<close>: the distinct elements in the order of their first occurrence.\<close>

definition unique :: "'a list \<Rightarrow> 'a list" where
  "unique xs = rev (remdups (rev xs))"

text \<open>\<^verbatim>\<open>.from('leads').select('user_id').not('user_id', 'is', null)\<close>, then the Set.\<close>

definition uniqueUserIds :: "db \<Rightarrow> string list" where
  "uniqueUserIds d = unique (map the (filter (\<lambda>u. u \<noteq> None) (map user_id (leads d))))"

text \<open>
  \<^verbatim>\<open>.from('user_roles').select('email').eq('user_id', userId).single()\<close>: the row when
  exactly one matches, null otherwise.
\<close>

definition single_role :: "db \<Rightarrow> string \<Rightarrow> user_role option" where
  "single_role d userId =
     (case filter (\<lambda>r. role_user_id r = userId) (user_roles d) of
        [r] \<Rightarrow> Some r
      | _ \<Rightarrow> None)"

text \<open>\<^verbatim>\<open>userRole?.email || `user-${userId}@unknown.com`\<close>.\<close>

definition email_or_default :: "user_role option \<Rightarrow> string \<Rightarrow> string" where
  "email_or_default userRole userId =
     (case userRole of
        None \<Rightarrow> ''user-'' @ userId @ ''@unknown.com''
      | Some r \<Rightarrow> if role_email r = [] then ''user-'' @ userId @ ''@unknown.com'' else role_email r)"

definition fourDaysAgo :: "time \<Rightarrow> time" where
  "fourDaysAgo now = now - 4 * 24 * 60 * 60 * 1000"

definition twoWeeksAgo :: "time \<Rightarrow> time" where
  "twoWeeksAgo now = now - 14 * 24 * 60 * 60 * 1000"

text \<open>
  The three lead queries of a generator, for one salesman. The overdue and the stale query
  filter on \<^verbatim>\<open>last_contact\<close> with \<^verbatim>\<open>.lt\<close> and exclude the two closed statuses; the
  uncalled query filters on \<^verbatim>\<open>call_status\<close> and \<^verbatim>\<open>created_at\<close> only.
\<close>

definition overdueLeads :: "db \<Rightarrow> string \<Rightarrow> time \<Rightarrow> lead list" where
  "overdueLeads d userId now =
     filter (\<lambda>l. user_id l = Some userId \<and> last_contact l < fourDaysAgo now
                \<and> status l \<noteq> ''closed-won'' \<and> status l \<noteq> ''closed-lost'') (leads d)"

definition staleLeads :: "db \<Rightarrow> string \<Rightarrow> time \<Rightarrow> lead list" where
  "staleLeads d userId now =
     filter (\<lambda>l. user_id l = Some userId \<and> last_contact l < twoWeeksAgo now
                \<and> status l \<noteq> ''closed-won'' \<and> status l \<noteq> ''closed-lost'') (leads d)"

definition uncalledLeads :: "db \<Rightarrow> string \<Rightarrow> time \<Rightarrow> lead list" where
  "uncalledLeads d userId now =
     filter (\<lambda>l. user_id l = Some userId \<and> call_status l = ''not_called''
                \<and> created_at l < twoWeeksAgo now) (leads d)"

text \<open>The column lists of the \<^verbatim>\<open>select\<close> calls.\<close>

definition select_contact_call :: "lead \<Rightarrow> lead_summary" where
  "select_contact_call l =
     \<lparr>sum_id = lead_id l, sum_name = name l, sum_company = company l,
      sum_last_contact = Some (last_contact l), sum_call_status = Some (call_status l),
      sum_created_at = None\<rparr>"

definition select_contact :: "lead \<Rightarrow> lead_summary" where
  "select_contact l =
     \<lparr>sum_id = lead_id l, sum_name = name l, sum_company = company l,
      sum_last_contact = Some (last_contact l), sum_call_status = None,
      sum_created_at = None\<rparr>"

definition select_created :: "lead \<Rightarrow> lead_summary" where
  "select_created l =
     \<lparr>sum_id = lead_id l, sum_name = name l, sum_company = company l,
      sum_last_contact = None, sum_call_status = None,
      sum_created_at = Some (created_at l)\<rparr>"

section \<open>The generator of generate-admin-notifications\<close>

record faults =
  delete_fault :: fault
  user_ids_fault :: fault
  role_fault :: "string \<Rightarrow> fault"
  overdue_fault :: "string \<Rightarrow> fault"
  stale_fault :: "string \<Rightarrow> fault"
  uncalled_fault :: "string \<Rightarrow> fault"
  insert_fault :: fault

datatype body = Text string | Success nat "nat option" | Error string

text \<open>
  \<open>Success n u\<close> is \<^verbatim>\<open>{success: true, notifications_created: n, users_processed: u}\<close>,
  the last field present in one of the two functions only; \<open>Error m\<close> is
  \<^verbatim>\<open>{error: m}\<close>.
\<close>

record response =
  http_status :: nat
  body :: body

record outcome =
  response :: response
  db_after :: db
  logged :: log

definition ga_overdue_notification :: "string \<Rightarrow> string \<Rightarrow> lead_summary list \<Rightarrow> notification" where
  "ga_overdue_notification userId userEmail ls =
     \<lparr>ntype = ''stale_lead'',
      title = chart @ '' '' @ show_nat (length ls) @ '' Overdue Leads (4+ Days) - '' @ userEmail,
      message = userEmail @ '' has '' @ show_nat (length ls)
        @ '' leads not contacted in 4+ days. Regular follow-up needed to keep leads warm.'',
      salesman_id = userId,
      salesman_email = userEmail,
      priority = (if length ls > 20 then ''high'' else if length ls > 10 then ''medium'' else ''low''),
      data = BucketData (length ls) (take 10 ls) ''days_overdue'' 4 ''overdue_leads''\<rparr>"

definition ga_stale_notification :: "string \<Rightarrow> string \<Rightarrow> lead_summary list \<Rightarrow> notification" where
  "ga_stale_notification userId userEmail ls =
     \<lparr>ntype = ''stale_lead'',
      title = siren @ '' CRITICAL: '' @ show_nat (length ls) @ '' Stale Leads (2+ Weeks) - '' @ userEmail,
      message = userEmail @ '' has '' @ show_nat (length ls)
        @ '' leads not contacted in 2+ weeks. URGENT: These leads are at high risk of being lost!'',
      salesman_id = userId,
      salesman_email = userEmail,
      priority = ''high'',
      data = BucketData (length ls) (take 10 ls) ''days_overdue'' 14 ''stale_leads''\<rparr>"

definition ga_uncalled_notification :: "string \<Rightarrow> string \<Rightarrow> lead_summary list \<Rightarrow> notification" where
  "ga_uncalled_notification userId userEmail ls =
     \<lparr>ntype = ''no_calls'',
      title = telephone @ '' '' @ show_nat (length ls) @ '' Uncalled Leads - '' @ userEmail,
      message = userEmail @ '' has '' @ show_nat (length ls)
        @ '' leads that have never been called (2+ weeks old). Initial contact is critical.'',
      salesman_id = userId,
      salesman_email = userEmail,
      priority = (if length ls > 5 then ''high'' else if length ls > 2 then ''medium'' else ''low''),
      data = BucketData (length ls) (take 10 ls) ''days_old'' 14 ''uncalled_leads''\<rparr>"

text \<open>
  The email of a salesman as a loop body computes it (lines 50 to 57): the error of the
  \<^verbatim>\<open>user_roles\<close> query is not read, and null data gives the default address.
\<close>

definition user_email_of :: "faults \<Rightarrow> db \<Rightarrow> string \<Rightarrow> string" where
  "user_email_of f d userId =
     (let userRole = (if role_fault f userId = NoFault then single_role d userId else None)
      in email_or_default userRole userId)"

text \<open>The line the \<^verbatim>\<open>catch\<close> inside the loop writes.\<close>

definition user_catch :: "string \<Rightarrow> string \<Rightarrow> notification list \<times> log" where
  "user_catch userId e = ([], [(''Error processing user '' @ userId @ '':'', e)])"

text \<open>
  The body of the loop over the salesmen (lines 48 to 164): what it pushes and what it
  logs. An error of a lead query is logged and the loop continues with the next salesman.
\<close>

definition ga_user :: "faults \<Rightarrow> db \<Rightarrow> time \<Rightarrow> string \<Rightarrow> notification list \<times> log" where
  "ga_user f d now userId =
     (case role_fault f userId of
        Thrown e \<Rightarrow> user_catch userId e
      | rf \<Rightarrow>
        let userEmail = user_email_of f d userId
        in (case overdue_fault f userId of
              Thrown e \<Rightarrow> user_catch userId e
            | ErrorResult e \<Rightarrow> ([], [(''Error fetching overdue leads for '' @ userEmail @ '':'', e)])
            | NoFault \<Rightarrow>
           (case stale_fault f userId of
              Thrown e \<Rightarrow> user_catch userId e
            | ErrorResult e \<Rightarrow> ([], [(''Error fetching stale leads for '' @ userEmail @ '':'', e)])
            | NoFault \<Rightarrow>
           (case uncalled_fault f userId of
              Thrown e \<Rightarrow> user_catch userId e
            | ErrorResult e \<Rightarrow> ([], [(''Error fetching uncalled leads for '' @ userEmail @ '':'', e)])
            | NoFault \<Rightarrow>
              let overdue = map select_contact_call (overdueLeads d userId now);
                  stale = map select_contact_call (staleLeads d userId now);
                  uncalled = map select_created (uncalledLeads d userId now)
              in ((if length overdue > 0 then [ga_overdue_notification userId userEmail overdue] else [])
                  @ (if length stale > 0 then [ga_stale_notification userId userEmail stale] else [])
                  @ (if length uncalled > 0 then [ga_uncalled_notification userId userEmail uncalled] else []),
                  [])))))"

text \<open>\<^verbatim>\<open>for (const userId of uniqueUserIds)\<close>, with the pushes and the log lines in order.\<close>

fun for_users :: "(string \<Rightarrow> notification list \<times> log) \<Rightarrow> string list \<Rightarrow> notification list \<times> log" where
  "for_users step [] = ([], [])"
| "for_users step (u # us) =
     (let (ns, lg) = step u; (ns', lg') = for_users step us in (ns @ ns', lg @ lg'))"

text \<open>\<^verbatim>\<open>notifications.map(n => ({ ...n, is_read: false }))\<close>.\<close>

definition unread :: "notification list \<Rightarrow> (notification \<times> bool) list" where
  "unread ns = map (\<lambda>n. (n, False)) ns"

definition ok_response :: "nat \<Rightarrow> nat option \<Rightarrow> response" where
  "ok_response n u = \<lparr>http_status = 200, body = Success n u\<rparr>"

text \<open>The outer \<^verbatim>\<open>catch\<close>: the error is logged and answered with status 500.\<close>

definition ga_failed :: "string \<Rightarrow> db \<Rightarrow> log \<Rightarrow> outcome" where
  "ga_failed e d lg =
     \<lparr>response = \<lparr>http_status = 500, body = Error e\<rparr>, db_after = d,
      logged = lg @ [(''Error in generate-admin-notifications:'', e)]\<rparr>"

text \<open>
  One request to generate-admin-notifications. A database call that does not succeed
  leaves its table as it was.
\<close>

definition generate_admin_notifications :: "string \<Rightarrow> faults \<Rightarrow> time \<Rightarrow> db \<Rightarrow> outcome" where
  "generate_admin_notifications method f now d =
     (if method = ''OPTIONS''
      then \<lparr>response = \<lparr>http_status = 200, body = Text ''ok''\<rparr>, db_after = d, logged = []\<rparr>
      else
        (case delete_fault f of
           Thrown e \<Rightarrow> ga_failed e d []
         | df \<Rightarrow>
           let d1 = (if df = NoFault
                     then delete_rows (\<lambda>r. row_created_at r \<ge> now - 24 * 60 * 60 * 1000) d
                     else d);
               lg1 = (case df of ErrorResult e \<Rightarrow> [(''Error clearing old notifications:'', e)] | _ \<Rightarrow> [])
           in (case user_ids_fault f of
                 ErrorResult e \<Rightarrow> ga_failed e d1 lg1
               | Thrown e \<Rightarrow> ga_failed e d1 lg1
               | NoFault \<Rightarrow>
                 let us = uniqueUserIds d1;
                     (ns, lg2) = for_users (ga_user f d1 now) us
                 in if length ns > 0
                    then (case insert_fault f of
                            NoFault \<Rightarrow>
                              \<lparr>response = ok_response (length ns) (Some (length us)),
                               db_after = insert_rows now (unread ns) d1, logged = lg1 @ lg2\<rparr>
                          | ErrorResult e \<Rightarrow>
                              ga_failed e d1 (lg1 @ lg2 @ [(''Error inserting notifications:'', e)])
                          | Thrown e \<Rightarrow> ga_failed e d1 (lg1 @ lg2))
                    else \<lparr>response = ok_response (length ns) (Some (length us)),
                          db_after = d1, logged = lg1 @ lg2\<rparr>)))"

section \<open>The generator of auto-generate-notifications and of the admin screen\<close>

definition auto_overdue_notification :: "string \<Rightarrow> string \<Rightarrow> lead_summary list \<Rightarrow> notification" where
  "auto_overdue_notification userId userEmail ls =
     \<lparr>ntype = ''stale_lead'',
      title = show_nat (length ls) @ '' Overdue Leads - '' @ userEmail,
      message = userEmail @ '' has '' @ show_nat (length ls) @ '' leads not contacted in 4+ days'',
      salesman_id = userId,
      salesman_email = userEmail,
      priority = (if length ls > 10 then ''high'' else ''medium''),
      data = LeadsData (take 5 ls)\<rparr>"

definition auto_stale_notification :: "string \<Rightarrow> string \<Rightarrow> lead_summary list \<Rightarrow> notification" where
  "auto_stale_notification userId userEmail ls =
     \<lparr>ntype = ''stale_lead'',
      title = siren @ '' CRITICAL: '' @ show_nat (length ls) @ '' Stale Leads - '' @ userEmail,
      message = userEmail @ '' has '' @ show_nat (length ls) @ '' leads not contacted in 2+ weeks'',
      salesman_id = userId,
      salesman_email = userEmail,
      priority = ''high'',
      data = LeadsData (take 5 ls)\<rparr>"

text \<open>
  The body of the loop in auto-generate-notifications (lines 48 to 105); the loop of
  \<^verbatim>\<open>generateNotifications\<close> in the admin screen has the same body. No error of a
  query is read: a query that resolves with an error gives null data, and the
  notification of that bucket is not pushed.
\<close>

definition auto_user :: "faults \<Rightarrow> db \<Rightarrow> time \<Rightarrow> string \<Rightarrow> notification list \<times> log" where
  "auto_user f d now userId =
     (case role_fault f userId of
        Thrown e \<Rightarrow> user_catch userId e
      | rf \<Rightarrow>
        let userEmail = user_email_of f d userId
        in (case overdue_fault f userId of
              Thrown e \<Rightarrow> user_catch userId e
            | ovf \<Rightarrow>
           (case stale_fault f userId of
              Thrown e \<Rightarrow> user_catch userId e
            | stf \<Rightarrow>
              let overdue = (if ovf = NoFault
                             then Some (map select_contact (overdueLeads d userId now)) else None);
                  stale = (if stf = NoFault
                           then Some (map select_contact (staleLeads d userId now)) else None)
              in ((case overdue of
                     Some ls \<Rightarrow> if length ls > 0 then [auto_overdue_notification userId userEmail ls] else []
                   | None \<Rightarrow> [])
                  @ (case stale of
                       Some ls \<Rightarrow> if length ls > 0 then [auto_stale_notification userId userEmail ls] else []
                     | None \<Rightarrow> []),
                  []))))"

definition auto_failed :: "string \<Rightarrow> db \<Rightarrow> log \<Rightarrow> outcome" where
  "auto_failed e d lg =
     \<lparr>response = \<lparr>http_status = 500, body = Error e\<rparr>, db_after = d,
      logged = lg @ [(''Error in auto-generate-notifications:'', e)]\<rparr>"

text \<open>
  One request to auto-generate-notifications. The result of the delete is not read, and
  an error of the insert is logged only.
\<close>

definition auto_generate_notifications :: "string \<Rightarrow> faults \<Rightarrow> time \<Rightarrow> db \<Rightarrow> outcome" where
  "auto_generate_notifications method f now d =
     (if method = ''OPTIONS''
      then \<lparr>response = \<lparr>http_status = 200, body = Text ''ok''\<rparr>, db_after = d, logged = []\<rparr>
      else
        (case user_ids_fault f of
           ErrorResult e \<Rightarrow> auto_failed e d []
         | Thrown e \<Rightarrow> auto_failed e d []
         | NoFault \<Rightarrow>
           let us = uniqueUserIds d
           in (case delete_fault f of
                 Thrown e \<Rightarrow> auto_failed e d []
               | df \<Rightarrow>
                 let d1 = (if df = NoFault
                           then delete_rows (\<lambda>r. row_created_at r < now - 24 * 60 * 60 * 1000) d
                           else d);
                     (ns, lg) = for_users (auto_user f d1 now) us
                 in if length ns > 0
                    then (case insert_fault f of
                            NoFault \<Rightarrow>
                              \<lparr>response = ok_response (length ns) None,
                               db_after = insert_rows now (unread ns) d1, logged = lg\<rparr>
                          | ErrorResult e \<Rightarrow>
                              \<lparr>response = ok_response (length ns) None, db_after = d1,
                               logged = lg @ [(''Error inserting notifications:'', e)]\<rparr>
                          | Thrown e \<Rightarrow> auto_failed e d1 lg)
                    else \<lparr>response = ok_response (length ns) None, db_after = d1, logged = lg\<rparr>)))"

text \<open>
  \<^verbatim>\<open>generateNotifications\<close> of the admin screen: its effect on the database and what
  it logs. It first deletes every row whose id is not the nil identifier. The screen's own
  state, which it reloads from the table at the end, is not part of the model.
\<close>

definition screen_failed :: "string \<Rightarrow> db \<Rightarrow> log \<Rightarrow> db \<times> log" where
  "screen_failed e d lg = (d, lg @ [(''Error generating notifications:'', e)])"

definition generateNotifications :: "faults \<Rightarrow> time \<Rightarrow> db \<Rightarrow> db \<times> log" where
  "generateNotifications f now d =
     (case delete_fault f of
        Thrown e \<Rightarrow> screen_failed e d []
      | df \<Rightarrow>
        let d1 = (if df = NoFault then delete_rows (\<lambda>r. row_id r \<noteq> nil_uuid) d else d)
        in (case user_ids_fault f of
              ErrorResult e \<Rightarrow> screen_failed e d1 []
            | Thrown e \<Rightarrow> screen_failed e d1 []
            | NoFault \<Rightarrow>
              let us = uniqueUserIds d1;
                  (ns, lg) = for_users (auto_user f d1 now) us
              in if length ns > 0
                 then (case insert_fault f of
                         NoFault \<Rightarrow> (insert_rows now (unread ns) d1, lg)
                       | ErrorResult e \<Rightarrow> (d1, lg @ [(''Error inserting notifications:'', e)])
                       | Thrown e \<Rightarrow> screen_failed e d1 lg)
                 else (d1, lg)))"

text \<open>
  The two read updates and the delete of the admin screen, as their effect on the table;
  an update that does not succeed changes nothing.
\<close>

definition markAsRead :: "fault \<Rightarrow> uuid \<Rightarrow> db \<Rightarrow> db" where
  "markAsRead upd notificationId d =
     (if upd = NoFault
      then d\<lparr>admin_notifications :=
               map (\<lambda>r. if row_id r = notificationId then r\<lparr>is_read := True\<rparr> else r)
                 (admin_notifications d)\<rparr>
      else d)"

definition markAllAsRead :: "fault \<Rightarrow> db \<Rightarrow> db" where
  "markAllAsRead upd d =
     (if upd = NoFault
      then d\<lparr>admin_notifications :=
               map (\<lambda>r. if is_read r = False then r\<lparr>is_read := True\<rparr> else r)
                 (admin_notifications d)\<rparr>
      else d)"

definition handleConfirmDelete :: "fault \<Rightarrow> uuid \<Rightarrow> db \<Rightarrow> db" where
  "handleConfirmDelete del notificationId d =
     (if del = NoFault then delete_rows (\<lambda>r. row_id r = notificationId) d else d)"

section \<open>The monitoring room\<close>

datatype online_state = Online | Idle | Afk | Offline

record salesman =
  s_user_id :: string
  email :: string
  last_activity :: "time option"
  total_actions :: nat
  online_status :: online_state

definition AFK_THRESHOLD :: int where
  "AFK_THRESHOLD = 10 * 60 * 1000"

definition IDLE_THRESHOLD :: int where
  "IDLE_THRESHOLD = 30 * 60 * 1000"

text \<open>
  The block that determines the status (lines 171 to 193): \<open>isOnline\<close> says whether a
  \<^verbatim>\<open>user_roles\<close> row was found for the salesman, \<open>lastActivity\<close> is the timestamp of
  the most recent activity log, if any.
\<close>

definition onlineStatus :: "bool \<Rightarrow> time option \<Rightarrow> time \<Rightarrow> online_state" where
  "onlineStatus isOnline lastActivity now =
     (case lastActivity of
        Some t \<Rightarrow>
          if isOnline
          then (let timeDiff = now - t
                in if timeDiff < 5 * 60 * 1000 then Online
                   else if timeDiff < AFK_THRESHOLD then Idle
                   else if timeDiff < IDLE_THRESHOLD then Afk
                   else Idle)
          else Offline
      | None \<Rightarrow> if isOnline then Online else Offline)"

definition salesmenEmails :: "string list" where
  "salesmenEmails =
     [''jukka@envaire.com'', ''tuomas@envaire.com'', ''jesse@envaire.com'', ''tuukka@envaire.com'']"

record fetch_faults =
  login_fault :: "string \<Rightarrow> fault"
  recent_fault :: "string \<Rightarrow> fault"
  count_fault :: "string \<Rightarrow> fault"

text \<open>\<^verbatim>\<open>.eq('email', email).maybeSingle()\<close>: the row when exactly one matches.\<close>

definition maybe_single_role :: "db \<Rightarrow> string \<Rightarrow> user_role option" where
  "maybe_single_role d e =
     (case filter (\<lambda>r. role_email r = e) (user_roles d) of
        [r] \<Rightarrow> Some r
      | _ \<Rightarrow> None)"

text \<open>The newest timestamp among the salesman's activity logs.\<close>

definition recentActivity :: "db \<Rightarrow> string \<Rightarrow> time option" where
  "recentActivity d e =
     (case filter (\<lambda>a. user_email a = e) (activity_logs d) of
        [] \<Rightarrow> None
      | a # as \<Rightarrow> Some (fold max (map timestamp as) (timestamp a)))"

definition activityCount :: "db \<Rightarrow> string \<Rightarrow> time \<Rightarrow> nat" where
  "activityCount d e today =
     length (filter (\<lambda>a. user_email a = e \<and> timestamp a \<ge> today) (activity_logs d))"

text \<open>
  One round of the loop of \<^verbatim>\<open>fetchSalesmen\<close>. Each of its three queries sits in a
  \<^verbatim>\<open>try\<close> of its own, so a query that fails leaves the initial value. \<open>today\<close> is the
  local midnight before \<open>now\<close>.
\<close>

definition salesman_of :: "fetch_faults \<Rightarrow> time \<Rightarrow> time \<Rightarrow> db \<Rightarrow> string \<Rightarrow> salesman" where
  "salesman_of f today now d e =
     (let userRole = (if login_fault f e = NoFault then maybe_single_role d e else None);
          userId = (case userRole of
                      Some r \<Rightarrow> role_user_id r
                    | None \<Rightarrow> ''demo-'' @ takeWhile (\<lambda>c. c \<noteq> CHR ''@'') e);
          isOnline = (userRole \<noteq> None);
          lastActivity = (if recent_fault f e = NoFault then recentActivity d e else None);
          activityCount = (if count_fault f e = NoFault then activityCount d e today else 0)
      in \<lparr>s_user_id = userId, email = e, last_activity = lastActivity,
          total_actions = activityCount,
          online_status = onlineStatus isOnline lastActivity now\<rparr>)"

definition fetchSalesmen :: "fetch_faults \<Rightarrow> time \<Rightarrow> time \<Rightarrow> db \<Rightarrow> salesman list" where
  "fetchSalesmen f today now d = map (salesman_of f today now d) salesmenEmails"

definition afk_notification :: "salesman \<Rightarrow> notification" where
  "afk_notification s =
     \<lparr>ntype = ''inactive_salesman'',
      title = siren @ '' AFK Alert: '' @ email s,
      message = email s @ '' has been inactive for over 10 minutes. They may need attention.'',
      salesman_id = s_user_id s,
      salesman_email = email s,
      priority = ''medium'',
      data = AfkData (last_activity s) (total_actions s) ''afk_detection''\<rparr>"

text \<open>
  \<^verbatim>\<open>generateAFKNotifications\<close>, over the salesmen the screen holds: its effect on the
  database and what it logs.
\<close>

definition generateAFKNotifications :: "bool \<Rightarrow> salesman list \<Rightarrow> fault \<Rightarrow> time \<Rightarrow> db \<Rightarrow> db \<times> log" where
  "generateAFKNotifications isAdmin salesmen ins now d =
     (if \<not> isAdmin then (d, [])
      else
        let afkSalesmen = filter (\<lambda>s. online_status s = Afk) salesmen
        in if length afkSalesmen > 0
           then (let notifications = map afk_notification afkSalesmen
                 in (case ins of
                       NoFault \<Rightarrow> (insert_rows now (unread notifications) d, [])
                     | ErrorResult e \<Rightarrow> (d, [(''Error creating AFK notifications:'', e)])
                     | Thrown e \<Rightarrow> (d, [(''Error generating AFK notifications:'', e)])))
           else (d, []))"

text \<open>
  One firing of the two-minute interval. The effect that installs the interval returns
  at once for a user who is not an admin, so nothing fires for such a user.
\<close>

definition afkCheckInterval :: "bool \<Rightarrow> salesman list \<Rightarrow> fault \<Rightarrow> time \<Rightarrow> db \<Rightarrow> db \<times> log" where
  "afkCheckInterval isAdmin salesmen ins now d =
     (if \<not> isAdmin then (d, []) else generateAFKNotifications isAdmin salesmen ins now d)"

section \<open>The inline update of a lead\<close>

datatype field = StatusField | CallStatusField

text \<open>The object handed to \<^verbatim>\<open>.update\<close>: the columns it names.\<close>

record update_data =
  upd_status :: "string option"
  upd_call_status :: "string option"
  upd_last_contact :: "time option"

definition updateData :: "field \<Rightarrow> string \<Rightarrow> time \<Rightarrow> update_data" where
  "updateData fld v now =
     (let u = (case fld of
                 StatusField \<Rightarrow> \<lparr>upd_status = Some v, upd_call_status = None, upd_last_contact = None\<rparr>
               | CallStatusField \<Rightarrow> \<lparr>upd_status = None, upd_call_status = Some v, upd_last_contact = None\<rparr>)
      in if fld = CallStatusField \<and> v = ''answered'' then u\<lparr>upd_last_contact := Some now\<rparr> else u)"

definition apply_update :: "update_data \<Rightarrow> lead \<Rightarrow> lead" where
  "apply_update u l =
     l\<lparr>status := (case upd_status u of Some v \<Rightarrow> v | None \<Rightarrow> status l),
       call_status := (case upd_call_status u of Some v \<Rightarrow> v | None \<Rightarrow> call_status l),
       last_contact := (case upd_last_contact u of Some t \<Rightarrow> t | None \<Rightarrow> last_contact l)\<rparr>"

text \<open>
  \<^verbatim>\<open>handleStatusUpdate\<close>: \<^verbatim>\<open>.update(updateData).eq('id', leadId)\<close> on the leads,
  then a reload of the screen's notifications, which only reads.
\<close>

definition handleStatusUpdate :: "fault \<Rightarrow> time \<Rightarrow> string \<Rightarrow> field \<Rightarrow> string \<Rightarrow> db \<Rightarrow> db \<times> log" where
  "handleStatusUpdate upd now leadId fld v d =
     (case upd of
        NoFault \<Rightarrow>
          (d\<lparr>leads := map (\<lambda>l. if lead_id l = leadId then apply_update (updateData fld v now) l else l)
                        (leads d)\<rparr>, [])
      | ErrorResult e \<Rightarrow> (d, [(''Error updating lead:'', e)])
      | Thrown e \<Rightarrow> (d, [(''Error updating lead:'', e)]))"

section \<open>Notions of the statements\<close>

definition day :: int where
  "day = 24 * 60 * 60 * 1000"

definition minute :: int where
  "minute = 60 * 1000"

definition closed :: "lead \<Rightarrow> bool" where
  "closed l = (status l = ''closed-won'' \<or> status l = ''closed-lost'')"

text \<open>The time since the last contact with a lead.\<close>

definition elapsed :: "time \<Rightarrow> lead \<Rightarrow> int" where
  "elapsed now l = now - last_contact l"

text \<open>The sample of leads a notification carries, and the tag of its bucket.\<close>

definition sample :: "notification \<Rightarrow> lead_summary list" where
  "sample n = (case data n of BucketData c ls k dd t \<Rightarrow> ls | LeadsData ls \<Rightarrow> ls | AfkData a c t \<Rightarrow> [])"

definition notification_type :: "notification \<Rightarrow> string" where
  "notification_type n = (case data n of BucketData c ls k dd t \<Rightarrow> t | LeadsData ls \<Rightarrow> [] | AfkData a c t \<Rightarrow> t)"

text \<open>What the table holds, apart from the two columns the database fills in.\<close>

definition contents :: "db \<Rightarrow> (bool \<times> notification) list" where
  "contents d = map (\<lambda>r. (is_read r, row r)) (admin_notifications d)"

text \<open>The notifications a pass collects over all salesmen.\<close>

definition ga_generated :: "faults \<Rightarrow> db \<Rightarrow> time \<Rightarrow> notification list" where
  "ga_generated f d now = fst (for_users (ga_user f d now) (uniqueUserIds d))"

definition auto_generated :: "faults \<Rightarrow> db \<Rightarrow> time \<Rightarrow> notification list" where
  "auto_generated f d now = fst (for_users (auto_user f d now) (uniqueUserIds d))"

definition no_faults :: faults where
  "no_faults =
     \<lparr>delete_fault = NoFault, user_ids_fault = NoFault, role_fault = (\<lambda>u. NoFault),
      overdue_fault = (\<lambda>u. NoFault), stale_fault = (\<lambda>u. NoFault),
      uncalled_fault = (\<lambda>u. NoFault), insert_fault = NoFault\<rparr>"

text \<open>The faults \<open>f\<close>, with those of the queries for salesman \<open>u\<close> replaced.\<close>

definition with_user_faults :: "faults \<Rightarrow> string \<Rightarrow> fault \<Rightarrow> fault \<Rightarrow> fault \<Rightarrow> fault \<Rightarrow> faults" where
  "with_user_faults f u r ov st un =
     f\<lparr>role_fault := (role_fault f)(u := r), overdue_fault := (overdue_fault f)(u := ov),
       stale_fault := (stale_fault f)(u := st), uncalled_fault := (uncalled_fault f)(u := un)\<rparr>"

definition thrown :: "fault \<Rightarrow> bool" where
  "thrown x = (case x of Thrown e \<Rightarrow> True | _ \<Rightarrow> False)"

text \<open>
  A regeneration pass in which no database call fails, at each of the three call sites,
  and the contents of the rows a pass inserts for the notifications \<open>ns\<close>.
\<close>

definition ga_pass :: "time \<Rightarrow> db \<Rightarrow> db" where
  "ga_pass now d = db_after (generate_admin_notifications ''POST'' no_faults now d)"

definition auto_pass :: "time \<Rightarrow> db \<Rightarrow> db" where
  "auto_pass now d = db_after (auto_generate_notifications ''POST'' no_faults now d)"

definition screen_pass :: "time \<Rightarrow> db \<Rightarrow> db" where
  "screen_pass now d = fst (generateNotifications no_faults now d)"

definition fresh :: "notification list \<Rightarrow> (bool \<times> notification) list" where
  "fresh ns = map (\<lambda>n. (False, n)) ns"

text \<open>
  Whether every query of the loop body of generate-admin-notifications gives its data for
  salesman \<open>u\<close> (the email lookup may resolve with an error, which the body does not
  read), and what the body pushes then.
\<close>

definition user_ok :: "faults \<Rightarrow> string \<Rightarrow> bool" where
  "user_ok f u =
     (\<not> thrown (role_fault f u) \<and> overdue_fault f u = NoFault \<and> stale_fault f u = NoFault
      \<and> uncalled_fault f u = NoFault)"

definition ga_pushed :: "faults \<Rightarrow> db \<Rightarrow> time \<Rightarrow> string \<Rightarrow> notification list" where
  "ga_pushed f d now u =
     (if overdueLeads d u now = [] then []
      else [ga_overdue_notification u (user_email_of f d u) (map select_contact_call (overdueLeads d u now))])
     @ (if staleLeads d u now = [] then []
        else [ga_stale_notification u (user_email_of f d u) (map select_contact_call (staleLeads d u now))])
     @ (if uncalledLeads d u now = [] then []
        else [ga_uncalled_notification u (user_email_of f d u) (map select_created (uncalledLeads d u now))])"

text \<open>The same for the loop body of the other two generators: no call rejects.\<close>

definition none_thrown :: "faults \<Rightarrow> string \<Rightarrow> bool" where
  "none_thrown f u =
     (\<not> thrown (role_fault f u) \<and> \<not> thrown (overdue_fault f u) \<and> \<not> thrown (stale_fault f u))"

definition auto_pushed :: "faults \<Rightarrow> db \<Rightarrow> time \<Rightarrow> string \<Rightarrow> notification list" where
  "auto_pushed f d now u =
     (if overdue_fault f u = NoFault \<and> overdueLeads d u now \<noteq> []
      then [auto_overdue_notification u (user_email_of f d u) (map select_contact (overdueLeads d u now))]
      else [])
     @ (if stale_fault f u = NoFault \<and> staleLeads d u now \<noteq> []
        then [auto_stale_notification u (user_email_of f d u) (map select_contact (staleLeads d u now))]
        else [])"

text \<open>Example data: leads of one salesman, \<open>u1\<close>, and the instant \<open>100 * day\<close>.\<close>

definition example_lead :: "string \<Rightarrow> string \<Rightarrow> string \<Rightarrow> time \<Rightarrow> time \<Rightarrow> lead" where
  "example_lead i st cs lc cr =
     \<lparr>lead_id = i, user_id = Some ''u1'', name = ''Lead '' @ i, company = ''Acme'',
      status = st, call_status = cs, last_contact = lc, created_at = cr\<rparr>"

definition example_db :: "lead list \<Rightarrow> db" where
  "example_db ls =
     \<lparr>leads = ls,
      user_roles = [\<lparr>role_user_id = ''u1'', role_email = ''jukka@envaire.com''\<rparr>],
      activity_logs = [], admin_notifications = [], next_id = 0\<rparr>"

text \<open>\<open>n\<close> open leads of \<open>u1\<close>, each last contacted five days before \<open>100 * day\<close>.\<close>

definition overdue_example :: "nat \<Rightarrow> db" where
  "overdue_example n =
     example_db (map (\<lambda>i. example_lead (show_nat i) ''prospect'' ''answered'' (95 * day) (90 * day)) [0..<n])"

text \<open>Two open leads of \<open>u1\<close>, last contacted five and three days ago.\<close>

definition two_leads :: db where
  "two_leads =
     example_db [example_lead ''a'' ''prospect'' ''not_called'' (95 * day) (90 * day),
                 example_lead ''b'' ''qualified'' ''voicemail'' (97 * day) (80 * day)]"

text \<open>
  A closed lead that was never called, created 80 days ago and last contacted 50 days ago,
  beside an open lead last contacted 20 days ago.
\<close>

definition closed_lead :: lead where
  "closed_lead = example_lead ''c'' ''closed-won'' ''not_called'' (50 * day) (20 * day)"

definition open_lead :: lead where
  "open_lead = example_lead ''a'' ''prospect'' ''answered'' (80 * day) (70 * day)"

definition closed_example :: db where
  "closed_example = example_db [closed_lead, open_lead]"

text \<open>
  An open lead last contacted exactly four days ago, and an open lead that was never
  called, created 80 days ago and last contacted five days ago.
\<close>

definition boundary_lead :: lead where
  "boundary_lead = example_lead ''e'' ''prospect'' ''answered'' (96 * day) (90 * day)"

definition uncalled_lead :: lead where
  "uncalled_lead = example_lead ''g'' ''prospect'' ''not_called'' (95 * day) (20 * day)"

text \<open>Faults of one pass: the bulk insert fails, or the overdue query of \<open>u1\<close> fails.\<close>

definition insert_fails :: faults where
  "insert_fails = no_faults\<lparr>insert_fault := ErrorResult ''timeout''\<rparr>"

definition overdue_query_fails :: faults where
  "overdue_query_fails =
     with_user_faults no_faults ''u1'' NoFault (ErrorResult ''timeout'') NoFault NoFault"

text \<open>
  Two salesmen: \<open>u1\<close> with the open example lead and \<open>u2\<close>, who has no row in
  \<^verbatim>\<open>user_roles\<close>, with a lead last contacted 20 days ago. And the faults of a pass in
  which the email lookup for \<open>u1\<close> fails.
\<close>

definition other_lead :: lead where
  "other_lead =
     (example_lead ''z'' ''qualified'' ''answered'' (80 * day) (70 * day))\<lparr>user_id := Some ''u2''\<rparr>"

definition two_salesmen :: db where
  "two_salesmen = example_db [open_lead, other_lead]"

definition email_lookup_fails :: faults where
  "email_lookup_fails =
     with_user_faults no_faults ''u1'' (ErrorResult ''denied'') NoFault NoFault NoFault"

text \<open>The two example leads beside a table that holds one row, 90 days old and read.\<close>

definition read_row :: notification_row where
  "read_row =
     \<lparr>row_id = 7, row_created_at = 10 * day, is_read = True,
      row = auto_stale_notification ''u1'' ''jukka@envaire.com'' []\<rparr>"

definition read_example :: db where
  "read_example = two_leads\<lparr>admin_notifications := [read_row], next_id := 7\<rparr>"

definition no_fetch_faults :: fetch_faults where
  "no_fetch_faults =
     \<lparr>login_fault = (\<lambda>e. NoFault), recent_fault = (\<lambda>e. NoFault), count_fault = (\<lambda>e. NoFault)\<rparr>"

text \<open>Two salesmen as the monitoring room holds them: one away, one online.\<close>

definition afk_example :: "salesman list" where
  "afk_example =
     [\<lparr>s_user_id = ''u1'', email = ''jukka@envaire.com'',
       last_activity = Some (100 * day - 11 * minute), total_actions = 3, online_status = Afk\<rparr>,
      \<lparr>s_user_id = ''u2'', email = ''jesse@envaire.com'',
       last_activity = Some (100 * day - 1 * minute), total_actions = 7, online_status = Online\<rparr>]"

section \<open>Inserted rows\<close>

lemma row_stamp: "map row (stamp now k objs) = map fst objs"
  by (induction now k objs rule: stamp.induct) simp_all

lemma is_read_stamp: "map is_read (stamp now k objs) = map snd objs"
  by (induction now k objs rule: stamp.induct) simp_all

lemma created_stamp: "r \<in> set (stamp now k objs) \<Longrightarrow> row_created_at r = now"
  by (induction now k objs rule: stamp.induct) auto

lemma id_stamp: "r \<in> set (stamp now k objs) \<Longrightarrow> row_id r > k"
  by (induction now k objs rule: stamp.induct) auto

lemma stamp_unread: "r \<in> set (stamp now k (unread ns)) \<Longrightarrow> \<not> is_read r"
proof -
  assume "r \<in> set (stamp now k (unread ns))"
  then have "is_read r \<in> set (map is_read (stamp now k (unread ns)))" by simp
  then show ?thesis by (auto simp: is_read_stamp unread_def)
qed

lemma row_stamp_unread: "map row (stamp now k (unread ns)) = ns"
  by (simp add: row_stamp unread_def comp_def)

section \<open>What a loop body pushes\<close>

lemma ga_user_ok: "user_ok f u \<Longrightarrow> ga_user f d now u = (ga_pushed f d now u, [])"
  by (cases "role_fault f u") (simp_all add: user_ok_def thrown_def ga_user_def ga_pushed_def Let_def)

lemma ga_user_not_ok:
  "\<not> user_ok f u \<Longrightarrow> fst (ga_user f d now u) = [] \<and> length (snd (ga_user f d now u)) = 1"
  by (cases "role_fault f u"; cases "overdue_fault f u"; cases "stale_fault f u"; cases "uncalled_fault f u")
     (simp_all add: user_ok_def thrown_def ga_user_def user_catch_def Let_def)

lemma auto_user_ok: "none_thrown f u \<Longrightarrow> auto_user f d now u = (auto_pushed f d now u, [])"
  by (cases "role_fault f u"; cases "overdue_fault f u"; cases "stale_fault f u")
     (simp_all add: none_thrown_def thrown_def auto_user_def auto_pushed_def Let_def)

lemma auto_user_thrown:
  "\<not> none_thrown f u \<Longrightarrow> fst (auto_user f d now u) = [] \<and> length (snd (auto_user f d now u)) = 1"
  by (cases "role_fault f u"; cases "overdue_fault f u"; cases "stale_fault f u")
     (simp_all add: none_thrown_def thrown_def auto_user_def user_catch_def Let_def)

lemma ga_user_subset: "set (fst (ga_user f d now u)) \<subseteq> set (ga_pushed f d now u)"
  by (cases "user_ok f u") (simp_all add: ga_user_ok ga_user_not_ok)

lemma auto_user_subset: "set (fst (auto_user f d now u)) \<subseteq> set (auto_pushed f d now u)"
  by (cases "none_thrown f u") (simp_all add: auto_user_ok auto_user_thrown)

lemma ga_pushed_cases:
  "n \<in> set (ga_pushed f d now u) \<Longrightarrow>
     n = ga_overdue_notification u (user_email_of f d u) (map select_contact_call (overdueLeads d u now))
   \<or> n = ga_stale_notification u (user_email_of f d u) (map select_contact_call (staleLeads d u now))
   \<or> n = ga_uncalled_notification u (user_email_of f d u) (map select_created (uncalledLeads d u now))"
  by (auto simp: ga_pushed_def split: if_splits)

lemma auto_pushed_cases:
  "n \<in> set (auto_pushed f d now u) \<Longrightarrow>
     n = auto_overdue_notification u (user_email_of f d u) (map select_contact (overdueLeads d u now))
   \<or> n = auto_stale_notification u (user_email_of f d u) (map select_contact (staleLeads d u now))"
  by (auto simp: auto_pushed_def split: if_splits)

lemma ga_overdue_priority:
  "priority (ga_overdue_notification u e ls) =
     (if length ls > 20 then ''high'' else if length ls > 10 then ''medium'' else ''low'')"
  by (simp add: ga_overdue_notification_def)

lemma ga_stale_priority: "priority (ga_stale_notification u e ls) = ''high''"
  by (simp add: ga_stale_notification_def)

lemma ga_uncalled_priority:
  "priority (ga_uncalled_notification u e ls) =
     (if length ls > 5 then ''high'' else if length ls > 2 then ''medium'' else ''low'')"
  by (simp add: ga_uncalled_notification_def)

lemma ga_types:
  "notification_type (ga_overdue_notification u e ls) = ''overdue_leads''"
  "notification_type (ga_stale_notification u e ls) = ''stale_leads''"
  "notification_type (ga_uncalled_notification u e ls) = ''uncalled_leads''"
  by (simp_all add: notification_type_def ga_overdue_notification_def ga_stale_notification_def
      ga_uncalled_notification_def)

section \<open>The example data\<close>

lemma overdue_example_overdue:
  "overdueLeads (overdue_example n) ''u1'' (100 * day) = leads (overdue_example n)"
  by (simp add: overdueLeads_def overdue_example_def example_db_def example_lead_def
      fourDaysAgo_def day_def)

lemma overdue_example_length: "length (leads (overdue_example n)) = n"
  by (simp add: overdue_example_def example_db_def)

lemma overdue_example_empty: "(leads (overdue_example n) = []) = (n = 0)"
  by (simp add: overdue_example_def example_db_def)

lemma overdue_example_stale: "staleLeads (overdue_example n) ''u1'' (100 * day) = []"
  by (simp add: staleLeads_def overdue_example_def example_db_def example_lead_def
      twoWeeksAgo_def day_def)

lemma overdue_example_uncalled: "uncalledLeads (overdue_example n) ''u1'' (100 * day) = []"
  by (simp add: uncalledLeads_def overdue_example_def example_db_def example_lead_def
      twoWeeksAgo_def day_def)

section \<open>Priorities\<close>

text \<open>
  Claim C3, as the code has it. In generate-admin-notifications every notification pushed
  for a salesman is the overdue one, with priority high above 20 overdue leads, medium
  above 10 and low otherwise, or the stale one, with priority high, or the uncalled one,
  with priority high above 5 uncalled leads, medium above 2 and low otherwise. In
  auto-generate-notifications and in the admin screen, whose loop body is the same, it is
  the overdue one, with priority high above 10 overdue leads and medium otherwise, or the
  stale one, with priority high; there is no uncalled notification and no priority low.
\<close>

theorem priority_thresholds:
  "(\<forall>n \<in> set (fst (ga_user f d now u)).
      (notification_type n = ''overdue_leads'' \<and>
         priority n = (if length (overdueLeads d u now) > 20 then ''high''
                       else if length (overdueLeads d u now) > 10 then ''medium'' else ''low''))
    \<or> (notification_type n = ''stale_leads'' \<and> priority n = ''high'')
    \<or> (notification_type n = ''uncalled_leads'' \<and>
         priority n = (if length (uncalledLeads d u now) > 5 then ''high''
                       else if length (uncalledLeads d u now) > 2 then ''medium'' else ''low'')))
  \<and> (\<forall>n \<in> set (fst (auto_user f d now u)).
      (n = auto_overdue_notification u (user_email_of f d u) (map select_contact (overdueLeads d u now))
        \<and> priority n = (if length (overdueLeads d u now) > 10 then ''high'' else ''medium''))
    \<or> (n = auto_stale_notification u (user_email_of f d u) (map select_contact (staleLeads d u now))
        \<and> priority n = ''high''))"
proof (intro conjI ballI)
  fix n assume "n \<in> set (fst (ga_user f d now u))"
  then have "n \<in> set (ga_pushed f d now u)" using ga_user_subset by blast
  then consider
      (a) "n = ga_overdue_notification u (user_email_of f d u) (map select_contact_call (overdueLeads d u now))"
    | (b) "n = ga_stale_notification u (user_email_of f d u) (map select_contact_call (staleLeads d u now))"
    | (c) "n = ga_uncalled_notification u (user_email_of f d u) (map select_created (uncalledLeads d u now))"
    using ga_pushed_cases by blast
  then show "(notification_type n = ''overdue_leads'' \<and>
         priority n = (if length (overdueLeads d u now) > 20 then ''high''
                       else if length (overdueLeads d u now) > 10 then ''medium'' else ''low''))
    \<or> (notification_type n = ''stale_leads'' \<and> priority n = ''high'')
    \<or> (notification_type n = ''uncalled_leads'' \<and>
         priority n = (if length (uncalledLeads d u now) > 5 then ''high''
                       else if length (uncalledLeads d u now) > 2 then ''medium'' else ''low''))"
  proof cases
    case a then show ?thesis by (simp only: ga_types ga_overdue_priority length_map) simp
  next
    case b then show ?thesis by (simp only: ga_types ga_stale_priority) simp
  next
    case c then show ?thesis by (simp only: ga_types ga_uncalled_priority length_map) simp
  qed
next
  fix n assume "n \<in> set (fst (auto_user f d now u))"
  then have "n \<in> set (auto_pushed f d now u)" using auto_user_subset by blast
  then show "(n = auto_overdue_notification u (user_email_of f d u) (map select_contact (overdueLeads d u now))
        \<and> priority n = (if length (overdueLeads d u now) > 10 then ''high'' else ''medium''))
    \<or> (n = auto_stale_notification u (user_email_of f d u) (map select_contact (staleLeads d u now))
        \<and> priority n = ''high'')"
    using auto_pushed_cases[of n f d now u]
    by (auto simp: auto_overdue_notification_def auto_stale_notification_def)
qed

text \<open>
  With 25, 12 and 5 overdue leads generate-admin-notifications gives high, medium and low;
  the loop body of the other two generators gives 25 leads priority high.
\<close>

theorem priority_thresholds_witness:
  "map priority (fst (ga_user no_faults (overdue_example 25) (100 * day) ''u1'')) = [''high'']
   \<and> map priority (fst (ga_user no_faults (overdue_example 12) (100 * day) ''u1'')) = [''medium'']
   \<and> map priority (fst (ga_user no_faults (overdue_example 5) (100 * day) ''u1'')) = [''low'']
   \<and> map priority (fst (auto_user no_faults (overdue_example 25) (100 * day) ''u1'')) = [''high'']"
  using priority_thresholds[of no_faults "overdue_example 25" "100 * day" "''u1''"]
    priority_thresholds[of no_faults "overdue_example 12" "100 * day" "''u1''"]
    priority_thresholds[of no_faults "overdue_example 5" "100 * day" "''u1''"]
  by (simp add: ga_user_def auto_user_def overdue_example_overdue overdue_example_stale
      overdue_example_uncalled overdue_example_length overdue_example_empty Let_def
      ga_overdue_notification_def auto_overdue_notification_def no_faults_def)

text \<open>
  Claim C3 as the spec states it fails at auto-generate-notifications: 12 overdue leads
  give priority high, not medium, and 5 give medium, not low.
\<close>

theorem priority_counterexample:
  "map priority (fst (auto_user no_faults (overdue_example 12) (100 * day) ''u1'')) = [''high'']
   \<and> map priority (fst (auto_user no_faults (overdue_example 5) (100 * day) ''u1'')) = [''medium'']"
  by (simp add: auto_user_def overdue_example_overdue overdue_example_stale
      overdue_example_length overdue_example_empty Let_def auto_overdue_notification_def
      no_faults_def)

section \<open>The status of a salesman\<close>

text \<open>
  Claim C6, as the code has it. A salesman with a \<^verbatim>\<open>user_roles\<close> row whose last activity
  is less than 5 minutes old is online, from 5 to under 10 minutes idle, from 10 to under
  30 minutes afk, and from 30 minutes on idle again, not offline; with such a row and no
  activity at all the salesman is online. A salesman without the row is offline, whatever
  the activity.
\<close>

theorem onlineStatus_ladder:
  "(now - t < 5 * minute \<longrightarrow> onlineStatus True (Some t) now = Online)
   \<and> (5 * minute \<le> now - t \<and> now - t < 10 * minute \<longrightarrow> onlineStatus True (Some t) now = Idle)
   \<and> (10 * minute \<le> now - t \<and> now - t < 30 * minute \<longrightarrow> onlineStatus True (Some t) now = Afk)
   \<and> (30 * minute \<le> now - t \<longrightarrow> onlineStatus True (Some t) now = Idle)
   \<and> onlineStatus True None now = Online
   \<and> onlineStatus False la now = Offline
   \<and> (maybe_single_role d e = None \<longrightarrow> online_status (salesman_of f today now d e) = Offline)"
  by (auto simp: onlineStatus_def AFK_THRESHOLD_def IDLE_THRESHOLD_def salesman_of_def Let_def
      minute_def split: option.splits)

theorem onlineStatus_ladder_witness:
  "onlineStatus True (Some (100 * day - 4 * minute)) (100 * day) = Online
   \<and> onlineStatus True (Some (100 * day - 6 * minute)) (100 * day) = Idle
   \<and> onlineStatus True (Some (100 * day - 11 * minute)) (100 * day) = Afk
   \<and> onlineStatus True (Some (100 * day - 35 * minute)) (100 * day) = Idle
   \<and> maybe_single_role (example_db []) ''jesse@envaire.com'' = None
   \<and> online_status (salesman_of no_fetch_faults (100 * day) (100 * day) (example_db []) ''jesse@envaire.com'') = Offline"
  using onlineStatus_ladder[of "100 * day" "100 * day - 4 * minute" None "example_db []" "''jesse@envaire.com''" no_fetch_faults "100 * day"]
    onlineStatus_ladder[of "100 * day" "100 * day - 6 * minute" None "example_db []" "''jesse@envaire.com''" no_fetch_faults "100 * day"]
    onlineStatus_ladder[of "100 * day" "100 * day - 11 * minute" None "example_db []" "''jesse@envaire.com''" no_fetch_faults "100 * day"]
    onlineStatus_ladder[of "100 * day" "100 * day - 35 * minute" None "example_db []" "''jesse@envaire.com''" no_fetch_faults "100 * day"]
  by (simp add: minute_def day_def maybe_single_role_def example_db_def)

text \<open>
  Claim C6 as the spec states it fails: a salesman with a session record whose last
  activity is 35 minutes old is not classified offline.
\<close>

theorem onlineStatus_counterexample:
  "onlineStatus True (Some (100 * day - 35 * minute)) (100 * day) \<noteq> Offline"
  by (simp add: onlineStatus_def AFK_THRESHOLD_def IDLE_THRESHOLD_def minute_def day_def)

section \<open>The AFK check\<close>

lemma afk_effect:
  "admin_notifications (fst (afkCheckInterval True salesmen NoFault now d)) =
     admin_notifications d
     @ stamp now (next_id d) (unread (map afk_notification (filter (\<lambda>s. online_status s = Afk) salesmen)))"
  by (simp add: afkCheckInterval_def generateAFKNotifications_def Let_def insert_rows_def unread_def)

text \<open>
  Claim C8. When the two-minute check fires (the user is an admin) and the insert
  succeeds, the rows added to \<^verbatim>\<open>admin_notifications\<close> are, in order, one per salesman
  whose status is afk and none for any other salesman, each unread and stamped with the
  time of the insert; and for every afk salesman the table then holds a row of type
  \<^verbatim>\<open>inactive_salesman\<close>, titled with the siren, \<^verbatim>\<open>AFK Alert:\<close> and the
  salesman's email, carrying that email and the salesman's id, with priority medium.
\<close>

theorem afk_check_inserts:
  "isAdmin \<Longrightarrow> ins = NoFault \<Longrightarrow>
   (\<exists>new. admin_notifications (fst (afkCheckInterval isAdmin salesmen ins now d))
             = admin_notifications d @ new
        \<and> map row new = map afk_notification (filter (\<lambda>s. online_status s = Afk) salesmen)
        \<and> (\<forall>r \<in> set new. \<not> is_read r \<and> row_created_at r = now))
   \<and> (\<forall>s \<in> set salesmen. online_status s = Afk \<longrightarrow>
         (\<exists>r \<in> set (admin_notifications (fst (afkCheckInterval isAdmin salesmen ins now d))).
            ntype (row r) = ''inactive_salesman''
          \<and> title (row r) = siren @ '' AFK Alert: '' @ email s
          \<and> salesman_email (row r) = email s \<and> salesman_id (row r) = s_user_id s
          \<and> priority (row r) = ''medium'' \<and> \<not> is_read r))"
proof -
  assume a: "isAdmin" "ins = NoFault"
  let ?afk = "filter (\<lambda>s. online_status s = Afk) salesmen"
  let ?new = "stamp now (next_id d) (unread (map afk_notification ?afk))"
  let ?after = "admin_notifications (fst (afkCheckInterval isAdmin salesmen ins now d))"
  have eq: "?after = admin_notifications d @ ?new"
    using a afk_effect by simp
  have rows: "map row ?new = map afk_notification ?afk"
    by (rule row_stamp_unread)
  have fresh: "\<forall>r \<in> set ?new. \<not> is_read r \<and> row_created_at r = now"
    using stamp_unread created_stamp by blast
  have each: "\<exists>r \<in> set ?after.
            ntype (row r) = ''inactive_salesman''
          \<and> title (row r) = siren @ '' AFK Alert: '' @ email s
          \<and> salesman_email (row r) = email s \<and> salesman_id (row r) = s_user_id s
          \<and> priority (row r) = ''medium'' \<and> \<not> is_read r"
    if s: "s \<in> set salesmen" "online_status s = Afk" for s
  proof -
    from s have "afk_notification s \<in> set (map row ?new)"
      by (simp add: rows)
    then obtain r where r: "r \<in> set ?new" "row r = afk_notification s"
      by auto
    then have "r \<in> set ?after" by (simp add: eq)
    moreover have "\<not> is_read r" using r(1) fresh by blast
    ultimately show ?thesis
      using r(2) by (intro bexI[of _ r]) (simp_all add: afk_notification_def)
  qed
  from eq rows fresh each show ?thesis by blast
qed

text \<open>Of the two example salesmen the check alerts on the one who is away only.\<close>

theorem afk_check_inserts_witness:
  "map (\<lambda>r. (title (row r), salesman_email (row r), priority (row r), is_read r))
     (admin_notifications (fst (afkCheckInterval True afk_example NoFault (100 * day) (example_db []))))
   = [(siren @ '' AFK Alert: jukka@envaire.com'', ''jukka@envaire.com'', ''medium'', False)]"
  using afk_check_inserts[of True NoFault afk_example "100 * day" "example_db []"]
  by (simp add: afk_effect afk_example_def example_db_def unread_def afk_notification_def)

section \<open>The inline update of a lead\<close>

text \<open>
  Claim C10. \<^verbatim>\<open>handleStatusUpdate\<close> touches no table but the leads and no lead but
  those with the given id. On such a lead, setting \<^verbatim>\<open>call_status\<close> to
  \<^verbatim>\<open>answered\<close> writes that value and sets \<^verbatim>\<open>last_contact\<close> to the current time;
  any other \<^verbatim>\<open>call_status\<close> value and any \<^verbatim>\<open>status\<close> value writes the named field
  alone. An update that fails changes nothing.
\<close>

theorem handleStatusUpdate_frame:
  "(case handleStatusUpdate upd now leadId fld v d of (d', lg) \<Rightarrow>
     user_roles d' = user_roles d \<and> activity_logs d' = activity_logs d
   \<and> admin_notifications d' = admin_notifications d \<and> next_id d' = next_id d
   \<and> length (leads d') = length (leads d)
   \<and> (upd \<noteq> NoFault \<longrightarrow> d' = d)
   \<and> (upd = NoFault \<longrightarrow> (\<forall>i < length (leads d).
         (lead_id (leads d ! i) \<noteq> leadId \<longrightarrow> leads d' ! i = leads d ! i)
       \<and> (lead_id (leads d ! i) = leadId \<longrightarrow>
           (fld = CallStatusField \<and> v = ''answered'' \<longrightarrow>
              leads d' ! i = (leads d ! i)\<lparr>call_status := ''answered'', last_contact := now\<rparr>)
         \<and> (fld = CallStatusField \<and> v \<noteq> ''answered'' \<longrightarrow>
              leads d' ! i = (leads d ! i)\<lparr>call_status := v\<rparr>)
         \<and> (fld = StatusField \<longrightarrow> leads d' ! i = (leads d ! i)\<lparr>status := v\<rparr>)))))"
  by (cases upd)
     (auto simp: handleStatusUpdate_def updateData_def apply_update_def Let_def split: field.splits)

text \<open>
  On the two example leads: an answered call on lead \<open>a\<close> moves its last contact to now, a
  voicemail and a new status leave it, and lead \<open>b\<close> stays as it is.
\<close>

theorem handleStatusUpdate_frame_witness:
  "leads (fst (handleStatusUpdate NoFault (100 * day) ''a'' CallStatusField ''answered'' two_leads))
     = [example_lead ''a'' ''prospect'' ''answered'' (100 * day) (90 * day),
        example_lead ''b'' ''qualified'' ''voicemail'' (97 * day) (80 * day)]
   \<and> leads (fst (handleStatusUpdate NoFault (100 * day) ''a'' CallStatusField ''voicemail'' two_leads))
     = [example_lead ''a'' ''prospect'' ''voicemail'' (95 * day) (90 * day),
        example_lead ''b'' ''qualified'' ''voicemail'' (97 * day) (80 * day)]
   \<and> leads (fst (handleStatusUpdate NoFault (100 * day) ''a'' StatusField ''closed-won'' two_leads))
     = [example_lead ''a'' ''closed-won'' ''not_called'' (95 * day) (90 * day),
        example_lead ''b'' ''qualified'' ''voicemail'' (97 * day) (80 * day)]
   \<and> fst (handleStatusUpdate (ErrorResult ''denied'') (100 * day) ''a'' CallStatusField ''answered'' two_leads)
     = two_leads"
  using handleStatusUpdate_frame[where upd = NoFault and now = "100 * day" and leadId = "''a''"
      and fld = CallStatusField and v = "''answered''" and d = two_leads]
    handleStatusUpdate_frame[where upd = NoFault and now = "100 * day" and leadId = "''a''"
      and fld = CallStatusField and v = "''voicemail''" and d = two_leads]
    handleStatusUpdate_frame[where upd = NoFault and now = "100 * day" and leadId = "''a''"
      and fld = StatusField and v = "''closed-won''" and d = two_leads]
    handleStatusUpdate_frame[where upd = "ErrorResult ''denied''" and now = "100 * day"
      and leadId = "''a''" and fld = CallStatusField and v = "''answered''" and d = two_leads]
  by (simp add: handleStatusUpdate_def updateData_def apply_update_def two_leads_def
      example_db_def example_lead_def)

section \<open>Buckets and generated notifications\<close>

lemma set_unique: "set (unique xs) = set xs"
  by (simp add: unique_def)

lemma set_uniqueUserIds: "set (uniqueUserIds d) = {u. \<exists>l \<in> set (leads d). user_id l = Some u}"
  by (auto simp: uniqueUserIds_def set_unique image_iff) force

lemma set_for_users: "set (fst (for_users step us)) = (\<Union>u \<in> set us. set (fst (step u)))"
  by (induction us) (auto split: prod.splits)

lemma ga_generated_iff:
  "n \<in> set (ga_generated f d now) \<longleftrightarrow> (\<exists>u \<in> set (uniqueUserIds d). n \<in> set (fst (ga_user f d now u)))"
  by (simp add: ga_generated_def set_for_users)

lemma auto_generated_iff:
  "n \<in> set (auto_generated f d now) \<longleftrightarrow> (\<exists>u \<in> set (uniqueUserIds d). n \<in> set (fst (auto_user f d now u)))"
  by (simp add: auto_generated_def set_for_users)

lemma overdue_iff:
  "l \<in> set (overdueLeads d u now) \<longleftrightarrow>
     l \<in> set (leads d) \<and> user_id l = Some u \<and> 4 * day < elapsed now l \<and> \<not> closed l"
  by (auto simp: overdueLeads_def fourDaysAgo_def day_def elapsed_def closed_def)

lemma stale_iff:
  "l \<in> set (staleLeads d u now) \<longleftrightarrow>
     l \<in> set (leads d) \<and> user_id l = Some u \<and> 14 * day < elapsed now l \<and> \<not> closed l"
  by (auto simp: staleLeads_def twoWeeksAgo_def day_def elapsed_def closed_def)

lemma uncalled_iff:
  "l \<in> set (uncalledLeads d u now) \<longleftrightarrow>
     l \<in> set (leads d) \<and> user_id l = Some u \<and> call_status l = ''not_called''
     \<and> created_at l < now - 14 * day"
  by (auto simp: uncalledLeads_def twoWeeksAgo_def day_def)

lemma samples:
  "sample (ga_overdue_notification u e ls) = take 10 ls"
  "sample (ga_stale_notification u e ls) = take 10 ls"
  "sample (ga_uncalled_notification u e ls) = take 10 ls"
  "sample (auto_overdue_notification u e ls) = take 5 ls"
  "sample (auto_stale_notification u e ls) = take 5 ls"
  by (simp_all add: sample_def ga_overdue_notification_def ga_stale_notification_def
      ga_uncalled_notification_def auto_overdue_notification_def auto_stale_notification_def)

lemma sum_ids: "sum_id (select_contact_call l) = lead_id l" "sum_id (select_contact l) = lead_id l"
  "sum_id (select_created l) = lead_id l"
  by (simp_all add: select_contact_call_def select_contact_def select_created_def)

text \<open>The sample of an overdue or a stale notification lists open leads only.\<close>

lemma ga_sample_open:
  assumes "n \<in> set (ga_generated f d now)" "notification_type n \<noteq> ''uncalled_leads''"
    "s \<in> set (sample n)"
  shows "\<exists>l' \<in> set (leads d). \<not> closed l' \<and> sum_id s = lead_id l'"
proof -
  from assms(1) obtain u where "n \<in> set (fst (ga_user f d now u))"
    by (auto simp: ga_generated_iff)
  then have "n \<in> set (ga_pushed f d now u)" using ga_user_subset by blast
  then consider
      (a) "n = ga_overdue_notification u (user_email_of f d u) (map select_contact_call (overdueLeads d u now))"
    | (b) "n = ga_stale_notification u (user_email_of f d u) (map select_contact_call (staleLeads d u now))"
    | (c) "n = ga_uncalled_notification u (user_email_of f d u) (map select_created (uncalledLeads d u now))"
    using ga_pushed_cases by blast
  then show ?thesis
  proof cases
    case a
    with assms(3) have "s \<in> set (map select_contact_call (overdueLeads d u now))"
      by (simp only: samples) (meson in_set_takeD)
    then obtain l' where "l' \<in> set (overdueLeads d u now)" "s = select_contact_call l'" by auto
    then show ?thesis by (auto simp: overdue_iff sum_ids)
  next
    case b
    with assms(3) have "s \<in> set (map select_contact_call (staleLeads d u now))"
      by (simp only: samples) (meson in_set_takeD)
    then obtain l' where "l' \<in> set (staleLeads d u now)" "s = select_contact_call l'" by auto
    then show ?thesis by (auto simp: stale_iff sum_ids)
  next
    case c
    with assms(2) show ?thesis by (simp only: ga_types) simp
  qed
qed

lemma auto_sample_open:
  assumes "n \<in> set (auto_generated f d now)" "s \<in> set (sample n)"
  shows "\<exists>l' \<in> set (leads d). \<not> closed l' \<and> sum_id s = lead_id l'"
proof -
  from assms(1) obtain u where "n \<in> set (fst (auto_user f d now u))"
    by (auto simp: auto_generated_iff)
  then have "n \<in> set (auto_pushed f d now u)" using auto_user_subset by blast
  then consider
      (a) "n = auto_overdue_notification u (user_email_of f d u) (map select_contact (overdueLeads d u now))"
    | (b) "n = auto_stale_notification u (user_email_of f d u) (map select_contact (staleLeads d u now))"
    using auto_pushed_cases by blast
  then show ?thesis
  proof cases
    case a
    with assms(2) have "s \<in> set (map select_contact (overdueLeads d u now))"
      by (simp only: samples) (meson in_set_takeD)
    then obtain l' where "l' \<in> set (overdueLeads d u now)" "s = select_contact l'" by auto
    then show ?thesis by (auto simp: overdue_iff sum_ids)
  next
    case b
    with assms(2) have "s \<in> set (map select_contact (staleLeads d u now))"
      by (simp only: samples) (meson in_set_takeD)
    then obtain l' where "l' \<in> set (staleLeads d u now)" "s = select_contact l'" by auto
    then show ?thesis by (auto simp: stale_iff sum_ids)
  qed
qed

lemma same_id: "distinct (map lead_id ls) \<Longrightarrow> l \<in> set ls \<Longrightarrow> l' \<in> set ls \<Longrightarrow> lead_id l = lead_id l' \<Longrightarrow> l = l'"
  by (meson distinct_map inj_onD)

lemma user_listed: "l \<in> set (leads d) \<Longrightarrow> user_id l = Some u \<Longrightarrow> u \<in> set (uniqueUserIds d)"
  by (auto simp: set_uniqueUserIds)

lemma ga_stale_sample:
  assumes "n \<in> set (ga_generated f d now)" "notification_type n = ''stale_leads''"
    "s \<in> set (sample n)"
  shows "\<exists>v. \<exists>l' \<in> set (staleLeads d v now). sum_id s = lead_id l'"
proof -
  from assms(1) obtain u where "n \<in> set (fst (ga_user f d now u))"
    by (auto simp: ga_generated_iff)
  then have "n \<in> set (ga_pushed f d now u)" using ga_user_subset by blast
  then consider
      (a) "n = ga_overdue_notification u (user_email_of f d u) (map select_contact_call (overdueLeads d u now))"
    | (b) "n = ga_stale_notification u (user_email_of f d u) (map select_contact_call (staleLeads d u now))"
    | (c) "n = ga_uncalled_notification u (user_email_of f d u) (map select_created (uncalledLeads d u now))"
    using ga_pushed_cases by blast
  then show ?thesis
  proof cases
    case a
    with assms(2) show ?thesis by (simp only: ga_types) simp
  next
    case b
    with assms(3) have "s \<in> set (map select_contact_call (staleLeads d u now))"
      by (simp only: samples) (meson in_set_takeD)
    then obtain l' where "l' \<in> set (staleLeads d u now)" "s = select_contact_call l'" by auto
    then show ?thesis by (auto simp: sum_ids)
  next
    case c
    with assms(2) show ?thesis by (simp only: ga_types) simp
  qed
qed

lemma email_example: "user_email_of no_faults (example_db ls) ''u1'' = ''jukka@envaire.com''"
  by (simp add: user_email_of_def no_faults_def single_role_def example_db_def email_or_default_def)

lemma ok_no_faults: "user_ok no_faults u" "none_thrown no_faults u"
  "overdue_fault no_faults u = NoFault" "stale_fault no_faults u = NoFault"
  by (simp_all add: user_ok_def none_thrown_def no_faults_def thrown_def)

lemma closed_example_buckets:
  "overdueLeads closed_example ''u1'' (100 * day) = [open_lead]"
  "staleLeads closed_example ''u1'' (100 * day) = [open_lead]"
  "uncalledLeads closed_example ''u1'' (100 * day) = [closed_lead]"
  by (simp_all add: overdueLeads_def staleLeads_def uncalledLeads_def closed_example_def
      example_db_def closed_lead_def open_lead_def example_lead_def fourDaysAgo_def
      twoWeeksAgo_def day_def)

lemma closed_example_users: "uniqueUserIds closed_example = [''u1'']"
  by (simp add: uniqueUserIds_def unique_def closed_example_def example_db_def closed_lead_def
      open_lead_def example_lead_def)

lemma closed_example_generated:
  "ga_generated no_faults closed_example (100 * day) =
     [ga_overdue_notification ''u1'' ''jukka@envaire.com'' [select_contact_call open_lead],
      ga_stale_notification ''u1'' ''jukka@envaire.com'' [select_contact_call open_lead],
      ga_uncalled_notification ''u1'' ''jukka@envaire.com'' [select_created closed_lead]]"
  "auto_generated no_faults closed_example (100 * day) =
     [auto_overdue_notification ''u1'' ''jukka@envaire.com'' [select_contact open_lead],
      auto_stale_notification ''u1'' ''jukka@envaire.com'' [select_contact open_lead]]"
  by (simp_all add: ga_generated_def auto_generated_def closed_example_users ga_user_ok
      auto_user_ok ok_no_faults ga_pushed_def auto_pushed_def closed_example_buckets)
     (simp_all add: closed_example_def email_example)

section \<open>Closed leads\<close>

text \<open>
  The overdue and the stale query exclude the two closed statuses: a closed lead is in
  neither bucket of any salesman, whatever its last contact, and, the lead ids of the
  table being distinct, it is in the sample of no overdue or stale notification that
  generate-admin-notifications generates and of no notification that
  auto-generate-notifications or the admin screen generates.
\<close>

lemma closed_lead_not_overdue_or_stale:
  "closed l \<Longrightarrow>
     l \<notin> set (overdueLeads d u now) \<and> l \<notin> set (staleLeads d u now)
   \<and> (l \<in> set (leads d) \<and> distinct (map lead_id (leads d)) \<longrightarrow>
        (\<forall>n \<in> set (ga_generated f d now). notification_type n \<noteq> ''uncalled_leads'' \<longrightarrow>
           lead_id l \<notin> sum_id ` set (sample n))
      \<and> (\<forall>n \<in> set (auto_generated f d now). lead_id l \<notin> sum_id ` set (sample n)))"
proof (intro conjI impI ballI)
  assume c: "closed l"
  show "l \<notin> set (overdueLeads d u now)" using c by (simp add: overdue_iff)
  show "l \<notin> set (staleLeads d u now)" using c by (simp add: stale_iff)
next
  fix n
  assume c: "closed l" and d: "l \<in> set (leads d) \<and> distinct (map lead_id (leads d))"
    and n: "n \<in> set (ga_generated f d now)" "notification_type n \<noteq> ''uncalled_leads''"
  show "lead_id l \<notin> sum_id ` set (sample n)"
  proof
    assume "lead_id l \<in> sum_id ` set (sample n)"
    then obtain s where s: "s \<in> set (sample n)" "sum_id s = lead_id l" by auto
    from ga_sample_open[OF n s(1)] obtain l' where
      "l' \<in> set (leads d)" "\<not> closed l'" "sum_id s = lead_id l'" by blast
    with s(2) d c show False using same_id by metis
  qed
next
  fix n
  assume c: "closed l" and d: "l \<in> set (leads d) \<and> distinct (map lead_id (leads d))"
    and n: "n \<in> set (auto_generated f d now)"
  show "lead_id l \<notin> sum_id ` set (sample n)"
  proof
    assume "lead_id l \<in> sum_id ` set (sample n)"
    then obtain s where s: "s \<in> set (sample n)" "sum_id s = lead_id l" by auto
    from auto_sample_open[OF n s(1)] obtain l' where
      "l' \<in> set (leads d)" "\<not> closed l'" "sum_id s = lead_id l'" by blast
    with s(2) d c show False using same_id by metis
  qed
qed

text \<open>
  Claim C1 has a closed lead in no bucket and in no notification. The uncalled query of
  generate-admin-notifications lacks the two status filters that the overdue and the
  stale query beside it carry: the closed example lead, closed-won, never called and
  created 80 days ago, is in the uncalled bucket of its salesman and in the sample of the
  uncalled notification generated for that salesman.
\<close>

theorem closed_lead_in_uncalled_bucket:
  "closed closed_lead
   \<and> uncalledLeads closed_example ''u1'' (100 * day) = [closed_lead]
   \<and> map sample (ga_generated no_faults closed_example (100 * day))
       = [[select_contact_call open_lead], [select_contact_call open_lead], [select_created closed_lead]]"
  by (simp add: closed_example_buckets closed_example_generated samples)
     (simp add: closed_def closed_lead_def example_lead_def)

section \<open>Overdue leads\<close>

text \<open>
  Claim C2, as the code has it. An open lead of a salesman whose last contact is more than
  4 days and less than 14 days old is in the overdue bucket of that salesman and in the
  stale bucket of no salesman. When the queries for the salesman give their data, the
  overdue notification built from that bucket is among the generated ones, at
  generate-admin-notifications and at the other two generators; the lead is in its sample
  when the bucket has at most 5 leads; and, lead ids being distinct, the lead is in the
  sample of no stale notification. It is also in the uncalled bucket of
  generate-admin-notifications exactly when it was never called and was created more than
  14 days ago.
\<close>

theorem overdue_bucket:
  "l \<in> set (leads d) \<Longrightarrow> user_id l = Some u \<Longrightarrow> \<not> closed l \<Longrightarrow>
   4 * day < elapsed now l \<Longrightarrow> elapsed now l < 14 * day \<Longrightarrow>
     l \<in> set (overdueLeads d u now)
   \<and> (\<forall>v. l \<notin> set (staleLeads d v now))
   \<and> (l \<in> set (uncalledLeads d u now) \<longleftrightarrow>
        call_status l = ''not_called'' \<and> created_at l < now - 14 * day)
   \<and> (user_ok f u \<longrightarrow>
        ga_overdue_notification u (user_email_of f d u) (map select_contact_call (overdueLeads d u now))
          \<in> set (ga_generated f d now))
   \<and> (none_thrown f u \<and> overdue_fault f u = NoFault \<longrightarrow>
        auto_overdue_notification u (user_email_of f d u) (map select_contact (overdueLeads d u now))
          \<in> set (auto_generated f d now))
   \<and> (length (overdueLeads d u now) \<le> 5 \<longrightarrow>
        select_contact_call l \<in> set (sample (ga_overdue_notification u (user_email_of f d u)
          (map select_contact_call (overdueLeads d u now))))
      \<and> select_contact l \<in> set (sample (auto_overdue_notification u (user_email_of f d u)
          (map select_contact (overdueLeads d u now)))))
   \<and> (distinct (map lead_id (leads d)) \<longrightarrow>
        (\<forall>n \<in> set (ga_generated f d now). notification_type n = ''stale_leads'' \<longrightarrow>
           lead_id l \<notin> sum_id ` set (sample n))
      \<and> (\<forall>v e. lead_id l \<notin> sum_id ` set (sample (auto_stale_notification v e
           (map select_contact (staleLeads d v now))))))"
proof -
  assume l: "l \<in> set (leads d)" "user_id l = Some u" "\<not> closed l"
    and lo: "4 * day < elapsed now l" and hi: "elapsed now l < 14 * day"
  have od: "l \<in> set (overdueLeads d u now)" using l lo by (simp add: overdue_iff)
  have st: "l \<notin> set (staleLeads d v now)" for v using hi by (simp add: stale_iff)
  have un: "l \<in> set (uncalledLeads d u now) \<longleftrightarrow>
        call_status l = ''not_called'' \<and> created_at l < now - 14 * day"
    using l by (simp add: uncalled_iff)
  have u: "u \<in> set (uniqueUserIds d)" using l user_listed by blast
  have ne: "overdueLeads d u now \<noteq> []" using od by auto
  have ga: "ga_overdue_notification u (user_email_of f d u) (map select_contact_call (overdueLeads d u now))
          \<in> set (ga_generated f d now)" if "user_ok f u"
  proof -
    have "ga_overdue_notification u (user_email_of f d u) (map select_contact_call (overdueLeads d u now))
      \<in> set (ga_pushed f d now u)" using ne by (simp add: ga_pushed_def)
    then have "ga_overdue_notification u (user_email_of f d u) (map select_contact_call (overdueLeads d u now))
      \<in> set (fst (ga_user f d now u))" using that by (simp add: ga_user_ok)
    then show ?thesis using u ga_generated_iff by blast
  qed
  have au: "auto_overdue_notification u (user_email_of f d u) (map select_contact (overdueLeads d u now))
          \<in> set (auto_generated f d now)" if "none_thrown f u \<and> overdue_fault f u = NoFault"
  proof -
    have "auto_overdue_notification u (user_email_of f d u) (map select_contact (overdueLeads d u now))
      \<in> set (auto_pushed f d now u)" using ne that by (simp add: auto_pushed_def)
    then have "auto_overdue_notification u (user_email_of f d u) (map select_contact (overdueLeads d u now))
      \<in> set (fst (auto_user f d now u))" using that by (simp add: auto_user_ok)
    then show ?thesis using u auto_generated_iff by blast
  qed
  have sm: "select_contact_call l \<in> set (sample (ga_overdue_notification u (user_email_of f d u)
          (map select_contact_call (overdueLeads d u now))))
      \<and> select_contact l \<in> set (sample (auto_overdue_notification u (user_email_of f d u)
          (map select_contact (overdueLeads d u now))))" if "length (overdueLeads d u now) \<le> 5"
    using that od by (simp add: samples)
  have nost: "lead_id l \<notin> sum_id ` set (sample n)"
    if dist: "distinct (map lead_id (leads d))" and n: "n \<in> set (ga_generated f d now)"
      "notification_type n = ''stale_leads''" for n
  proof
    assume "lead_id l \<in> sum_id ` set (sample n)"
    then obtain s where s: "s \<in> set (sample n)" "sum_id s = lead_id l" by auto
    from ga_stale_sample[OF n s(1)] obtain v l' where
      l': "l' \<in> set (staleLeads d v now)" "sum_id s = lead_id l'" by blast
    then have "l' \<in> set (leads d)" by (simp add: stale_iff)
    with s(2) l'(2) dist l(1) have "l' = l" using same_id by metis
    with l'(1) st show False by blast
  qed
  have nost': "lead_id l \<notin> sum_id ` set (sample (auto_stale_notification v e
           (map select_contact (staleLeads d v now))))"
    if dist: "distinct (map lead_id (leads d))" for v e
  proof
    assume "lead_id l \<in> sum_id ` set (sample (auto_stale_notification v e
           (map select_contact (staleLeads d v now))))"
    then obtain s where s: "s \<in> set (take 5 (map select_contact (staleLeads d v now)))"
      "sum_id s = lead_id l" by (auto simp: samples)
    then have "s \<in> set (map select_contact (staleLeads d v now))" by (meson in_set_takeD)
    then obtain l' where l': "l' \<in> set (staleLeads d v now)" "s = select_contact l'" by auto
    then have "l' \<in> set (leads d)" "lead_id l' = lead_id l" using s(2) by (simp_all add: stale_iff sum_ids)
    with dist l(1) have "l' = l" using same_id by metis
    with l'(1) st show False by blast
  qed
  from od st un ga au sm nost nost' show ?thesis by blast
qed

lemma two_leads_buckets:
  "overdueLeads two_leads ''u1'' (100 * day) = [hd (leads two_leads)]"
  "staleLeads two_leads ''u1'' (100 * day) = []"
  "uncalledLeads two_leads ''u1'' (100 * day) = []"
  by (simp_all add: overdueLeads_def staleLeads_def uncalledLeads_def two_leads_def
      example_db_def example_lead_def fourDaysAgo_def twoWeeksAgo_def day_def)

lemma two_leads_users: "uniqueUserIds two_leads = [''u1'']"
  by (simp add: uniqueUserIds_def unique_def two_leads_def example_db_def example_lead_def)

lemma two_leads_generated:
  "ga_generated no_faults two_leads (100 * day) =
     [ga_overdue_notification ''u1'' ''jukka@envaire.com'' [select_contact_call (hd (leads two_leads))]]"
  "auto_generated no_faults two_leads (100 * day) =
     [auto_overdue_notification ''u1'' ''jukka@envaire.com'' [select_contact (hd (leads two_leads))]]"
  by (simp_all add: ga_generated_def auto_generated_def two_leads_users ga_user_ok
      auto_user_ok ok_no_faults ga_pushed_def auto_pushed_def two_leads_buckets)
     (simp_all add: two_leads_def email_example)

text \<open>
  Lead \<open>a\<close> of the two example leads, last contacted five days ago, is alone in the
  overdue bucket and in the one overdue notification; nothing is stale.
\<close>

theorem overdue_bucket_witness:
  "hd (leads two_leads) \<in> set (leads two_leads) \<and> user_id (hd (leads two_leads)) = Some ''u1''
   \<and> \<not> closed (hd (leads two_leads)) \<and> elapsed (100 * day) (hd (leads two_leads)) = 5 * day
   \<and> distinct (map lead_id (leads two_leads))
   \<and> overdueLeads two_leads ''u1'' (100 * day) = [hd (leads two_leads)]
   \<and> staleLeads two_leads ''u1'' (100 * day) = []
   \<and> map (\<lambda>n. (notification_type n, map sum_id (sample n))) (ga_generated no_faults two_leads (100 * day))
       = [(''overdue_leads'', [''a''])]
   \<and> map (\<lambda>n. map sum_id (sample n)) (auto_generated no_faults two_leads (100 * day)) = [[''a'']]"
  using overdue_bucket[where l = "hd (leads two_leads)" and d = two_leads and u = "''u1''"
      and now = "100 * day" and f = no_faults]
  by (simp add: two_leads_buckets two_leads_generated samples sum_ids ga_types)
     (simp add: two_leads_def example_db_def example_lead_def closed_def elapsed_def)

lemma boundary_buckets:
  "overdueLeads (example_db [boundary_lead]) ''u1'' (100 * day) = []"
  "staleLeads (example_db [boundary_lead]) ''u1'' (100 * day) = []"
  "uncalledLeads (example_db [boundary_lead]) ''u1'' (100 * day) = []"
  "overdueLeads (example_db [uncalled_lead]) ''u1'' (100 * day) = [uncalled_lead]"
  "uncalledLeads (example_db [uncalled_lead]) ''u1'' (100 * day) = [uncalled_lead]"
  by (simp_all add: overdueLeads_def staleLeads_def uncalledLeads_def boundary_lead_def
      uncalled_lead_def example_db_def example_lead_def fourDaysAgo_def twoWeeksAgo_def day_def)

lemma boundary_users: "uniqueUserIds (example_db [boundary_lead]) = [''u1'']"
  by (simp add: uniqueUserIds_def unique_def boundary_lead_def example_db_def example_lead_def)

text \<open>
  Claim C2 as the spec states it fails at the boundary: an open lead last contacted exactly
  four days ago is in no bucket and no notification is generated for it. It also fails for
  the other buckets: an open lead last contacted five days ago that was never called and
  is 80 days old is in the uncalled bucket as well.
\<close>

theorem overdue_counterexample:
  "\<not> closed boundary_lead \<and> elapsed (100 * day) boundary_lead = 4 * day
   \<and> overdueLeads (example_db [boundary_lead]) ''u1'' (100 * day) = []
   \<and> ga_generated no_faults (example_db [boundary_lead]) (100 * day) = []
   \<and> auto_generated no_faults (example_db [boundary_lead]) (100 * day) = []
   \<and> \<not> closed uncalled_lead \<and> elapsed (100 * day) uncalled_lead = 5 * day
   \<and> uncalledLeads (example_db [uncalled_lead]) ''u1'' (100 * day) = [uncalled_lead]"
  by (simp add: ga_generated_def auto_generated_def boundary_users ga_user_ok
      auto_user_ok ok_no_faults ga_pushed_def auto_pushed_def boundary_buckets)
     (simp add: closed_def elapsed_def boundary_lead_def uncalled_lead_def example_lead_def)

section \<open>The tables after a pass\<close>

lemma delete_rows_tables [simp]:
  "leads (delete_rows sel d) = leads d" "user_roles (delete_rows sel d) = user_roles d"
  "next_id (delete_rows sel d) = next_id d"
  "admin_notifications (delete_rows sel d) = filter (\<lambda>r. \<not> sel r) (admin_notifications d)"
  by (simp_all add: delete_rows_def)

lemma insert_rows_tables [simp]:
  "leads (insert_rows now objs d) = leads d" "user_roles (insert_rows now objs d) = user_roles d"
  "next_id (insert_rows now objs d) = next_id d + length objs"
  "admin_notifications (insert_rows now objs d) = admin_notifications d @ stamp now (next_id d) objs"
  by (simp_all add: insert_rows_def)

lemma queries_tables:
  assumes "leads d' = leads d" "user_roles d' = user_roles d"
  shows "overdueLeads d' = overdueLeads d" "staleLeads d' = staleLeads d"
    "uncalledLeads d' = uncalledLeads d" "user_email_of f d' = user_email_of f d"
    "uniqueUserIds d' = uniqueUserIds d"
  using assms
  by (simp_all add: fun_eq_iff overdueLeads_def staleLeads_def uncalledLeads_def user_email_of_def
      single_role_def uniqueUserIds_def)

lemma ga_user_tables:
  assumes "leads d' = leads d" "user_roles d' = user_roles d"
  shows "ga_user f d' = ga_user f d"
  unfolding ga_user_def queries_tables[OF assms] ..

lemma auto_user_tables:
  assumes "leads d' = leads d" "user_roles d' = user_roles d"
  shows "auto_user f d' = auto_user f d"
  unfolding auto_user_def queries_tables[OF assms] ..

lemma users_after_delete: "uniqueUserIds (delete_rows sel d) = uniqueUserIds d"
  by (rule queries_tables) simp_all

lemma ga_generated_after_delete:
  "fst (for_users (ga_user f (delete_rows sel d) now) (uniqueUserIds d)) = ga_generated f d now"
  by (simp add: ga_generated_def ga_user_tables[of "delete_rows sel d" d])

lemma auto_generated_after_delete:
  "fst (for_users (auto_user f (delete_rows sel d) now) (uniqueUserIds d)) = auto_generated f d now"
  by (simp add: auto_generated_def auto_user_tables[of "delete_rows sel d" d])

lemma gen_fold:
  "fst (for_users (ga_user f d now) (uniqueUserIds d)) = ga_generated f d now"
  "fst (for_users (auto_user f d now) (uniqueUserIds d)) = auto_generated f d now"
  by (simp_all add: ga_generated_def auto_generated_def)

lemma generated_delete:
  "ga_generated f (delete_rows sel d) now = ga_generated f d now"
  "auto_generated f (delete_rows sel d) now = auto_generated f d now"
  by (simp_all add: ga_generated_def auto_generated_def users_after_delete
      ga_user_tables[of "delete_rows sel d" d] auto_user_tables[of "delete_rows sel d" d])

lemmas pass_simps = Let_def case_prod_beta users_after_delete ga_generated_after_delete
  auto_generated_after_delete gen_fold generated_delete ga_failed_def auto_failed_def screen_failed_def
  ok_response_def

lemma ga_status:
  "insert_fault f = NoFault \<Longrightarrow>
   http_status (response (generate_admin_notifications m f now d)) =
     (if m = ''OPTIONS'' then 200
      else if thrown (delete_fault f) \<or> user_ids_fault f \<noteq> NoFault then 500 else 200)"
  by (cases "delete_fault f"; cases "user_ids_fault f")
     (simp_all add: generate_admin_notifications_def thrown_def pass_simps)

lemma auto_status:
  "insert_fault f = NoFault \<Longrightarrow>
   http_status (response (auto_generate_notifications m f now d)) =
     (if m = ''OPTIONS'' then 200
      else if thrown (delete_fault f) \<or> user_ids_fault f \<noteq> NoFault then 500 else 200)"
  by (cases "delete_fault f"; cases "user_ids_fault f")
     (simp_all add: auto_generate_notifications_def thrown_def pass_simps)

lemma ga_table:
  "m \<noteq> ''OPTIONS'' \<Longrightarrow> \<not> thrown (delete_fault f) \<Longrightarrow> user_ids_fault f = NoFault \<Longrightarrow>
   admin_notifications (db_after (generate_admin_notifications m f now d)) =
     (if delete_fault f = NoFault
      then filter (\<lambda>r. \<not> row_created_at r \<ge> now - 24 * 60 * 60 * 1000) (admin_notifications d)
      else admin_notifications d)
     @ (if insert_fault f = NoFault then stamp now (next_id d) (unread (ga_generated f d now)) else [])"
  by (cases "delete_fault f"; cases "insert_fault f")
     (simp_all add: generate_admin_notifications_def thrown_def pass_simps unread_def)

lemma auto_table:
  "m \<noteq> ''OPTIONS'' \<Longrightarrow> \<not> thrown (delete_fault f) \<Longrightarrow> user_ids_fault f = NoFault \<Longrightarrow>
   admin_notifications (db_after (auto_generate_notifications m f now d)) =
     (if delete_fault f = NoFault
      then filter (\<lambda>r. \<not> row_created_at r < now - 24 * 60 * 60 * 1000) (admin_notifications d)
      else admin_notifications d)
     @ (if insert_fault f = NoFault then stamp now (next_id d) (unread (auto_generated f d now)) else [])"
  by (cases "delete_fault f"; cases "insert_fault f")
     (simp_all add: auto_generate_notifications_def thrown_def pass_simps unread_def)

lemma screen_table:
  "\<not> thrown (delete_fault f) \<Longrightarrow> user_ids_fault f = NoFault \<Longrightarrow>
   admin_notifications (fst (generateNotifications f now d)) =
     (if delete_fault f = NoFault
      then filter (\<lambda>r. \<not> row_id r \<noteq> nil_uuid) (admin_notifications d)
      else admin_notifications d)
     @ (if insert_fault f = NoFault then stamp now (next_id d) (unread (auto_generated f d now)) else [])"
  by (cases "delete_fault f"; cases "insert_fault f")
     (simp_all add: generateNotifications_def thrown_def pass_simps unread_def)

lemma ga_table_early:
  "m = ''OPTIONS'' \<or> thrown (delete_fault f) \<or> user_ids_fault f \<noteq> NoFault \<Longrightarrow>
   set (admin_notifications (db_after (generate_admin_notifications m f now d)))
     \<subseteq> set (admin_notifications d)"
  by (cases "delete_fault f"; cases "user_ids_fault f")
     (auto simp: generate_admin_notifications_def thrown_def pass_simps)

lemma auto_table_early:
  "m = ''OPTIONS'' \<or> thrown (delete_fault f) \<or> user_ids_fault f \<noteq> NoFault \<Longrightarrow>
   set (admin_notifications (db_after (auto_generate_notifications m f now d)))
     \<subseteq> set (admin_notifications d)"
  by (cases "delete_fault f"; cases "user_ids_fault f")
     (auto simp: auto_generate_notifications_def thrown_def pass_simps)

lemma screen_table_early:
  "thrown (delete_fault f) \<or> user_ids_fault f \<noteq> NoFault \<Longrightarrow>
   set (admin_notifications (fst (generateNotifications f now d)))
     \<subseteq> set (admin_notifications d)"
  by (cases "delete_fault f"; cases "user_ids_fault f")
     (auto simp: generateNotifications_def thrown_def pass_simps)

lemma ga_frame:
  "leads (db_after (generate_admin_notifications m f now d)) = leads d
   \<and> user_roles (db_after (generate_admin_notifications m f now d)) = user_roles d"
  by (cases "delete_fault f"; cases "user_ids_fault f"; cases "insert_fault f")
     (simp_all add: generate_admin_notifications_def pass_simps)

lemma auto_frame:
  "leads (db_after (auto_generate_notifications m f now d)) = leads d
   \<and> user_roles (db_after (auto_generate_notifications m f now d)) = user_roles d"
  by (cases "delete_fault f"; cases "user_ids_fault f"; cases "insert_fault f")
     (simp_all add: auto_generate_notifications_def pass_simps)

lemma screen_frame:
  "leads (fst (generateNotifications f now d)) = leads d
   \<and> user_roles (fst (generateNotifications f now d)) = user_roles d"
  by (cases "delete_fault f"; cases "user_ids_fault f"; cases "insert_fault f")
     (simp_all add: generateNotifications_def pass_simps)

lemma no_faults_simps [simp]:
  "delete_fault no_faults = NoFault" "user_ids_fault no_faults = NoFault"
  "insert_fault no_faults = NoFault"
  by (simp_all add: no_faults_def)

lemma generated_tables:
  assumes "leads d' = leads d" "user_roles d' = user_roles d"
  shows "ga_generated f d' = ga_generated f d" "auto_generated f d' = auto_generated f d"
  by (simp_all add: fun_eq_iff ga_generated_def auto_generated_def ga_user_tables[OF assms]
      auto_user_tables[OF assms] queries_tables(5)[OF assms])

lemma contents_stamp: "map (\<lambda>r. (is_read r, row r)) (stamp now k (unread ns)) = fresh ns"
  by (induction ns arbitrary: k) (simp_all add: unread_def fresh_def)

lemma filter_stamp_all: "(\<And>r. row_created_at r = now \<Longrightarrow> P r) \<Longrightarrow> filter P (stamp now k objs) = stamp now k objs"
  by (induction now k objs rule: stamp.induct) simp_all

lemma filter_stamp_none: "(\<And>r. row_created_at r = now \<Longrightarrow> \<not> P r) \<Longrightarrow> filter P (stamp now k objs) = []"
  by (induction now k objs rule: stamp.induct) simp_all

lemma filter_stamp_ids: "(\<And>r. 0 < row_id r \<Longrightarrow> \<not> P r) \<Longrightarrow> filter P (stamp now k objs) = []"
  by (induction now k objs rule: stamp.induct) simp_all

lemma ga_pass_table:
  "admin_notifications (ga_pass now d) =
     filter (\<lambda>r. row_created_at r < now - day) (admin_notifications d)
     @ stamp now (next_id d) (unread (ga_generated no_faults d now))"
  by (simp add: ga_pass_def ga_table thrown_def day_def not_le)

lemma auto_pass_table:
  "admin_notifications (auto_pass now d) =
     filter (\<lambda>r. now - day \<le> row_created_at r) (admin_notifications d)
     @ stamp now (next_id d) (unread (auto_generated no_faults d now))"
  by (simp add: auto_pass_def auto_table thrown_def day_def not_less)

lemma screen_pass_table:
  "admin_notifications (screen_pass now d) =
     filter (\<lambda>r. row_id r = nil_uuid) (admin_notifications d)
     @ stamp now (next_id d) (unread (auto_generated no_faults d now))"
  by (simp add: screen_pass_def screen_table thrown_def)

lemma pass_generated:
  "ga_generated f (ga_pass t d) = ga_generated f d"
  "auto_generated f (auto_pass t d) = auto_generated f d"
  "auto_generated f (screen_pass t d) = auto_generated f d"
  by (rule generated_tables; simp add: ga_pass_def auto_pass_def screen_pass_def ga_frame
      auto_frame screen_frame)+


lemma read_rows_old:
  assumes eq: "rows' = (if del then filter P rows else rows) @ (if ins then stamp now k (unread ns) else [])"
    and r: "r \<in> set rows'" "is_read r"
  shows "r \<in> set rows"
proof -
  from r(1) eq have "r \<in> set (if del then filter P rows else rows) \<or> r \<in> set (if ins then stamp now k (unread ns) else [])"
    by simp
  then show ?thesis
  proof
    assume "r \<in> set (if del then filter P rows else rows)"
    then show ?thesis by (cases del) simp_all
  next
    assume a: "r \<in> set (if ins then stamp now k (unread ns) else [])"
    show ?thesis
    proof (cases ins)
      case True
      with a have "r \<in> set (stamp now k (unread ns))" by simp
      then have "\<not> is_read r" by (rule stamp_unread)
      with r(2) show ?thesis by simp
    next
      case False
      with a show ?thesis by simp
    qed
  qed
qed

lemma ga_read_rows:
  assumes "r \<in> set (admin_notifications (db_after (generate_admin_notifications m f now d)))" "is_read r"
  shows "r \<in> set (admin_notifications d)"
proof (cases "m = ''OPTIONS'' \<or> thrown (delete_fault f) \<or> user_ids_fault f \<noteq> NoFault")
  case True
  then show ?thesis using assms(1) ga_table_early[OF True] by blast
next
  case False
  then have "m \<noteq> ''OPTIONS''" "\<not> thrown (delete_fault f)" "user_ids_fault f = NoFault" by simp_all
  from read_rows_old[OF ga_table[OF this] assms] show ?thesis .
qed

lemma auto_read_rows:
  assumes "r \<in> set (admin_notifications (db_after (auto_generate_notifications m f now d)))" "is_read r"
  shows "r \<in> set (admin_notifications d)"
proof (cases "m = ''OPTIONS'' \<or> thrown (delete_fault f) \<or> user_ids_fault f \<noteq> NoFault")
  case True
  then show ?thesis using assms(1) auto_table_early[OF True] by blast
next
  case False
  then have "m \<noteq> ''OPTIONS''" "\<not> thrown (delete_fault f)" "user_ids_fault f = NoFault" by simp_all
  from read_rows_old[OF auto_table[OF this] assms] show ?thesis .
qed

lemma screen_read_rows:
  assumes "r \<in> set (admin_notifications (fst (generateNotifications f now d)))" "is_read r"
  shows "r \<in> set (admin_notifications d)"
proof (cases "thrown (delete_fault f) \<or> user_ids_fault f \<noteq> NoFault")
  case True
  then show ?thesis using assms(1) screen_table_early[OF True] by blast
next
  case False
  then have "\<not> thrown (delete_fault f)" "user_ids_fault f = NoFault" by simp_all
  from read_rows_old[OF screen_table[OF this] assms] show ?thesis .
qed

lemma afk_table:
  "admin_notifications (fst (afkCheckInterval isAdmin salesmen ins now d)) =
     (if False then filter (\<lambda>r. True) (admin_notifications d) else admin_notifications d)
     @ (if isAdmin \<and> ins = NoFault
        then stamp now (next_id d) (unread (map afk_notification (filter (\<lambda>s. online_status s = Afk) salesmen)))
        else [])"
  by (cases ins) (simp_all add: afkCheckInterval_def generateAFKNotifications_def Let_def unread_def)

lemma afk_read_rows:
  assumes "r \<in> set (admin_notifications (fst (afkCheckInterval isAdmin salesmen ins now d)))" "is_read r"
  shows "r \<in> set (admin_notifications d)"
  using read_rows_old[OF afk_table assms] .

section \<open>Regenerating twice\<close>

lemma two_leads_later:
  "ga_generated no_faults two_leads (100 * day + minute) = ga_generated no_faults two_leads (100 * day)"
  "auto_generated no_faults two_leads (100 * day + minute) = auto_generated no_faults two_leads (100 * day)"
  by (simp_all add: ga_generated_def auto_generated_def two_leads_users ga_user_ok auto_user_ok
      ok_no_faults ga_pushed_def auto_pushed_def)
     (simp_all add: overdueLeads_def staleLeads_def uncalledLeads_def two_leads_def example_db_def
      example_lead_def fourDaysAgo_def twoWeeksAgo_def day_def minute_def)

lemma contents_pass:
  "contents (ga_pass now d) =
     map (\<lambda>r. (is_read r, row r)) (filter (\<lambda>r. row_created_at r < now - day) (admin_notifications d))
     @ fresh (ga_generated no_faults d now)"
  "contents (auto_pass now d) =
     map (\<lambda>r. (is_read r, row r)) (filter (\<lambda>r. now - day \<le> row_created_at r) (admin_notifications d))
     @ fresh (auto_generated no_faults d now)"
  "contents (screen_pass now d) =
     map (\<lambda>r. (is_read r, row r)) (filter (\<lambda>r. row_id r = nil_uuid) (admin_notifications d))
     @ fresh (auto_generated no_faults d now)"
  by (simp_all add: contents_def ga_pass_table auto_pass_table screen_pass_table contents_stamp)

lemma auto_twice:
  assumes "t1 \<le> t2 \<and> t2 \<le> t1 + day"
  shows "contents (auto_pass t2 (auto_pass t1 d)) =
        contents (delete_rows (\<lambda>r. row_created_at r < t2 - day) d)
        @ fresh (auto_generated no_faults d t1) @ fresh (auto_generated no_faults d t2)"
proof -
  have 1: "filter (\<lambda>r. t2 - day \<le> row_created_at r) (stamp t1 k objs) = stamp t1 k objs" for k objs
    using assms by (intro filter_stamp_all) simp
  have 2: "filter (\<lambda>r. t1 - day \<le> row_created_at r \<and> t2 - day \<le> row_created_at r)
             (admin_notifications d)
           = filter (\<lambda>r. t2 - day \<le> row_created_at r) (admin_notifications d)"
    using assms by (auto intro: filter_cong)
  show ?thesis
    by (simp add: contents_def auto_pass_table pass_generated 1 2 contents_stamp not_less)
qed

text \<open>
  Claim C4, as the code has it, for passes in which no database call fails. At
  generate-admin-notifications, a second pass at most 24 hours after the first deletes the
  rows the first inserted, so when both passes generate the same notifications the table
  holds after two passes what it held after one. At the admin screen, which deletes every
  row first, the same holds without the bound on the time. At
  auto-generate-notifications the deletion removes only rows older than 24 hours: after a
  second pass within 24 hours the table holds the rows of the first pass and those of the
  second.
\<close>

theorem regeneration_twice:
  "(t1 \<le> t2 \<and> t2 \<le> t1 + day \<and> ga_generated no_faults d t2 = ga_generated no_faults d t1 \<longrightarrow>
      contents (ga_pass t2 (ga_pass t1 d)) = contents (ga_pass t1 d))
   \<and> (auto_generated no_faults d t2 = auto_generated no_faults d t1 \<longrightarrow>
      contents (screen_pass t2 (screen_pass t1 d)) = contents (screen_pass t1 d))
   \<and> (t1 \<le> t2 \<and> t2 \<le> t1 + day \<longrightarrow>
      contents (auto_pass t2 (auto_pass t1 d)) =
        contents (delete_rows (\<lambda>r. row_created_at r < t2 - day) d)
        @ fresh (auto_generated no_faults d t1) @ fresh (auto_generated no_faults d t2))"
proof (intro conjI impI)
  assume a: "t1 \<le> t2 \<and> t2 \<le> t1 + day \<and> ga_generated no_faults d t2 = ga_generated no_faults d t1"
  have 1: "filter (\<lambda>r. row_created_at r < t2 - day) (stamp t1 k objs) = []" for k objs
    using a by (intro filter_stamp_none) simp
  have 2: "filter (\<lambda>r. row_created_at r < t1 - day \<and> row_created_at r < t2 - day)
             (admin_notifications d)
           = filter (\<lambda>r. row_created_at r < t1 - day) (admin_notifications d)"
    using a by (auto intro: filter_cong)
  show "contents (ga_pass t2 (ga_pass t1 d)) = contents (ga_pass t1 d)"
    using a by (simp add: contents_def ga_pass_table pass_generated 1 2 contents_stamp)
next
  assume a: "auto_generated no_faults d t2 = auto_generated no_faults d t1"
  have 1: "filter (\<lambda>r. row_id r = nil_uuid) (stamp t1 k objs) = []" for k objs
    by (intro filter_stamp_ids) (simp add: nil_uuid_def)
  show "contents (screen_pass t2 (screen_pass t1 d)) = contents (screen_pass t1 d)"
    using a by (simp add: contents_def screen_pass_table pass_generated 1 contents_stamp)
next
  assume a: "t1 \<le> t2 \<and> t2 \<le> t1 + day"
  have 1: "filter (\<lambda>r. t2 - day \<le> row_created_at r) (stamp t1 k objs) = stamp t1 k objs" for k objs
    using a by (intro filter_stamp_all) simp
  have 2: "filter (\<lambda>r. t1 - day \<le> row_created_at r \<and> t2 - day \<le> row_created_at r)
             (admin_notifications d)
           = filter (\<lambda>r. t2 - day \<le> row_created_at r) (admin_notifications d)"
    using a by (auto intro: filter_cong)
  show "contents (auto_pass t2 (auto_pass t1 d)) =
        contents (delete_rows (\<lambda>r. row_created_at r < t2 - day) d)
        @ fresh (auto_generated no_faults d t1) @ fresh (auto_generated no_faults d t2)"
    by (simp add: contents_def auto_pass_table pass_generated 1 2 contents_stamp not_less)
qed

text \<open>Two passes one minute apart over the two example leads.\<close>

theorem regeneration_twice_witness:
  "100 * day \<le> 100 * day + minute \<and> 100 * day + minute \<le> 100 * day + day
   \<and> ga_generated no_faults two_leads (100 * day + minute) = ga_generated no_faults two_leads (100 * day)
   \<and> contents (ga_pass (100 * day + minute) (ga_pass (100 * day) two_leads))
       = contents (ga_pass (100 * day) two_leads)
   \<and> contents (screen_pass (100 * day + minute) (screen_pass (100 * day) two_leads))
       = contents (screen_pass (100 * day) two_leads)
   \<and> length (contents (ga_pass (100 * day) two_leads)) = 1"
proof -
  have 1: "100 * day \<le> 100 * day + minute \<and> 100 * day + minute \<le> 100 * day + day"
    by (simp add: day_def minute_def)
  have e: "admin_notifications two_leads = []"
    by (simp add: two_leads_def example_db_def)
  have 2: "length (contents (ga_pass (100 * day) two_leads)) = 1"
    by (simp add: contents_pass two_leads_generated fresh_def e)
  from 1 2 two_leads_later
    regeneration_twice[where ?t1.0 = "100 * day" and ?t2.0 = "100 * day + minute" and d = two_leads]
  show ?thesis by simp
qed

text \<open>
  Claim C4 as the spec states it fails at auto-generate-notifications: a second pass one
  minute after the first leaves the row of the first pass and adds it again.
\<close>

theorem regeneration_counterexample:
  "contents (auto_pass (100 * day + minute) (auto_pass (100 * day) two_leads))
     = contents (auto_pass (100 * day) two_leads) @ contents (auto_pass (100 * day) two_leads)
   \<and> length (contents (auto_pass (100 * day) two_leads)) = 1"
proof -
  have e: "admin_notifications two_leads = []" by (simp add: two_leads_def example_db_def)
  have 1: "contents (auto_pass (100 * day) two_leads) = fresh (auto_generated no_faults two_leads (100 * day))"
    by (simp add: contents_pass e)
  have 2: "contents (delete_rows (\<lambda>r. row_created_at r < 100 * day + minute - day) two_leads) = []"
    by (simp add: contents_def e)
  have 3: "100 * day \<le> 100 * day + minute \<and> 100 * day + minute \<le> 100 * day + day"
    by (simp add: day_def minute_def)
  have 4: "length (fresh (auto_generated no_faults two_leads (100 * day))) = 1"
    by (simp add: two_leads_generated fresh_def)
  show ?thesis
    using auto_twice[OF 3, of two_leads] by (simp only: 1 2 4 two_leads_later append_Nil simp_thms)
qed

section \<open>A failing insert\<close>

lemma ga_insert_error:
  assumes "m \<noteq> ''OPTIONS''" "\<not> thrown (delete_fault f)" "user_ids_fault f = NoFault"
    "ga_generated f d now \<noteq> []"
  shows "insert_fault f = ErrorResult e \<Longrightarrow>
      response (generate_admin_notifications m f now d) = \<lparr>http_status = 500, body = Error e\<rparr>
    \<and> (''Error inserting notifications:'', e) \<in> set (logged (generate_admin_notifications m f now d))"
    and "insert_fault f = Thrown e \<Longrightarrow>
      response (generate_admin_notifications m f now d) = \<lparr>http_status = 500, body = Error e\<rparr>"
  using assms
  by (cases "delete_fault f"; simp add: generate_admin_notifications_def thrown_def pass_simps)+

lemma auto_insert_error:
  assumes "m \<noteq> ''OPTIONS''" "\<not> thrown (delete_fault f)" "user_ids_fault f = NoFault"
    "auto_generated f d now \<noteq> []"
  shows "insert_fault f = ErrorResult e \<Longrightarrow>
      response (auto_generate_notifications m f now d)
        = \<lparr>http_status = 200, body = Success (length (auto_generated f d now)) None\<rparr>
    \<and> (''Error inserting notifications:'', e) \<in> set (logged (auto_generate_notifications m f now d))"
    and "insert_fault f = Thrown e \<Longrightarrow>
      response (auto_generate_notifications m f now d) = \<lparr>http_status = 500, body = Error e\<rparr>"
  using assms
  by (cases "delete_fault f"; simp add: auto_generate_notifications_def thrown_def pass_simps)+

lemma screen_insert_error:
  assumes "\<not> thrown (delete_fault f)" "user_ids_fault f = NoFault"
    "auto_generated f d now \<noteq> []" "insert_fault f = ErrorResult e"
  shows "(''Error inserting notifications:'', e) \<in> set (snd (generateNotifications f now d))"
  using assms
  by (cases "delete_fault f"; simp add: generateNotifications_def thrown_def pass_simps)

lemma not_inserted:
  assumes "rows' = (if del then filter P rows else rows) @ (if ins then new else [])" "\<not> ins"
  shows "set rows' \<subseteq> set rows"
  using assms by (cases del) auto

lemma insert_fails_simps:
  "delete_fault insert_fails = NoFault" "user_ids_fault insert_fails = NoFault"
  "insert_fault insert_fails = ErrorResult ''timeout''"
  "user_ok insert_fails u" "none_thrown insert_fails u"
  "overdue_fault insert_fails u = NoFault" "stale_fault insert_fails u = NoFault"
  "user_email_of insert_fails d u = user_email_of no_faults d u"
  by (simp_all add: insert_fails_def no_faults_def user_ok_def none_thrown_def thrown_def
      user_email_of_def)

lemma two_leads_insert_fails:
  "ga_generated insert_fails two_leads (100 * day) = ga_generated no_faults two_leads (100 * day)"
  "auto_generated insert_fails two_leads (100 * day) = auto_generated no_faults two_leads (100 * day)"
  by (simp_all add: ga_generated_def auto_generated_def two_leads_users ga_user_ok auto_user_ok
      ok_no_faults insert_fails_simps ga_pushed_def auto_pushed_def)

text \<open>
  Claim C5, as the code has it, for a pass that reaches the bulk insert with notifications
  to insert. When the insert resolves with an error, generate-admin-notifications logs it,
  throws it and answers with status 500 and the error's message, and nothing is inserted;
  auto-generate-notifications logs it and answers with status 200 and the success body
  that counts the generated notifications, and nothing is inserted; the admin screen logs
  it. When the insert call rejects, both functions answer with status 500.
\<close>

theorem insert_failure_response:
  "m \<noteq> ''OPTIONS'' \<Longrightarrow> \<not> thrown (delete_fault f) \<Longrightarrow> user_ids_fault f = NoFault \<Longrightarrow>
   (insert_fault f = ErrorResult e \<and> ga_generated f d now \<noteq> [] \<longrightarrow>
      response (generate_admin_notifications m f now d) = \<lparr>http_status = 500, body = Error e\<rparr>
    \<and> (''Error inserting notifications:'', e) \<in> set (logged (generate_admin_notifications m f now d))
    \<and> set (admin_notifications (db_after (generate_admin_notifications m f now d)))
         \<subseteq> set (admin_notifications d))
   \<and> (insert_fault f = ErrorResult e \<and> auto_generated f d now \<noteq> [] \<longrightarrow>
      response (auto_generate_notifications m f now d)
        = \<lparr>http_status = 200, body = Success (length (auto_generated f d now)) None\<rparr>
    \<and> (''Error inserting notifications:'', e) \<in> set (logged (auto_generate_notifications m f now d))
    \<and> set (admin_notifications (db_after (auto_generate_notifications m f now d)))
         \<subseteq> set (admin_notifications d))
   \<and> (insert_fault f = ErrorResult e \<and> auto_generated f d now \<noteq> [] \<longrightarrow>
      (''Error inserting notifications:'', e) \<in> set (snd (generateNotifications f now d))
    \<and> set (admin_notifications (fst (generateNotifications f now d))) \<subseteq> set (admin_notifications d))
   \<and> (insert_fault f = Thrown e \<and> ga_generated f d now \<noteq> [] \<longrightarrow>
      response (generate_admin_notifications m f now d) = \<lparr>http_status = 500, body = Error e\<rparr>)
   \<and> (insert_fault f = Thrown e \<and> auto_generated f d now \<noteq> [] \<longrightarrow>
      response (auto_generate_notifications m f now d) = \<lparr>http_status = 500, body = Error e\<rparr>)"
proof -
  assume a: "m \<noteq> ''OPTIONS''" "\<not> thrown (delete_fault f)" "user_ids_fault f = NoFault"
  have 1: "set (admin_notifications (db_after (generate_admin_notifications m f now d)))
         \<subseteq> set (admin_notifications d)" if "insert_fault f = ErrorResult e"
    using not_inserted[OF ga_table[OF a]] that by simp
  have 2: "set (admin_notifications (db_after (auto_generate_notifications m f now d)))
         \<subseteq> set (admin_notifications d)" if "insert_fault f = ErrorResult e"
    using not_inserted[OF auto_table[OF a]] that by simp
  have 3: "set (admin_notifications (fst (generateNotifications f now d)))
         \<subseteq> set (admin_notifications d)" if "insert_fault f = ErrorResult e"
    using not_inserted[OF screen_table[OF a(2,3)]] that by simp
  show ?thesis
    using ga_insert_error[OF a] auto_insert_error[OF a] screen_insert_error[OF a(2,3)] 1 2 3
    by blast
qed

text \<open>The two example leads, with an insert that fails.\<close>

theorem insert_failure_response_witness:
  "response (generate_admin_notifications ''POST'' insert_fails (100 * day) two_leads)
     = \<lparr>http_status = 500, body = Error ''timeout''\<rparr>
   \<and> admin_notifications (db_after (generate_admin_notifications ''POST'' insert_fails (100 * day) two_leads)) = []
   \<and> http_status (response (auto_generate_notifications ''POST'' insert_fails (100 * day) two_leads)) = 200"
  using insert_failure_response[where m = "''POST''" and f = insert_fails and d = two_leads
      and now = "100 * day" and e = "''timeout''"]
  by (simp add: insert_fails_simps two_leads_insert_fails two_leads_generated thrown_def)
     (simp add: two_leads_def example_db_def)

text \<open>
  Claim C5 as the spec states it fails at auto-generate-notifications: the insert fails
  and the response is the success response with status 200.
\<close>

theorem insert_failure_counterexample:
  "response (auto_generate_notifications ''POST'' insert_fails (100 * day) two_leads)
     = \<lparr>http_status = 200, body = Success 1 None\<rparr>
   \<and> admin_notifications (db_after (auto_generate_notifications ''POST'' insert_fails (100 * day) two_leads)) = []"
  using auto_insert_error(1)[where m = "''POST''" and f = insert_fails and d = two_leads
      and now = "100 * day" and e = "''timeout''"]
    auto_table[where m = "''POST''" and f = insert_fails and d = two_leads and now = "100 * day"]
  by (simp add: insert_fails_simps two_leads_insert_fails two_leads_generated thrown_def)
     (simp add: two_leads_def example_db_def)


section \<open>A failing salesman\<close>

lemma with_user_faults_at:
  assumes "v \<noteq> u"
  shows "role_fault (with_user_faults f u r ov st un) v = role_fault f v"
    "overdue_fault (with_user_faults f u r ov st un) v = overdue_fault f v"
    "stale_fault (with_user_faults f u r ov st un) v = stale_fault f v"
    "uncalled_fault (with_user_faults f u r ov st un) v = uncalled_fault f v"
    "user_email_of (with_user_faults f u r ov st un) d v = user_email_of f d v"
  using assms by (simp_all add: with_user_faults_def user_email_of_def)

lemma with_user_faults_other:
  assumes "v \<noteq> u"
  shows "ga_user (with_user_faults f u r ov st un) d now v = ga_user f d now v"
    "auto_user (with_user_faults f u r ov st un) d now v = auto_user f d now v"
  unfolding ga_user_def auto_user_def with_user_faults_at[OF assms] by (rule refl)+

lemma with_user_faults_outer [simp]:
  "delete_fault (with_user_faults f u r ov st un) = delete_fault f"
  "user_ids_fault (with_user_faults f u r ov st un) = user_ids_fault f"
  "insert_fault (with_user_faults f u r ov st un) = insert_fault f"
  by (simp_all add: with_user_faults_def)

lemma builder_salesman:
  "salesman_id (ga_overdue_notification u e ls) = u"
  "salesman_id (ga_stale_notification u e ls) = u"
  "salesman_id (ga_uncalled_notification u e ls) = u"
  "salesman_id (auto_overdue_notification u e ls) = u"
  "salesman_id (auto_stale_notification u e ls) = u"
  by (simp_all add: ga_overdue_notification_def ga_stale_notification_def
      ga_uncalled_notification_def auto_overdue_notification_def auto_stale_notification_def)

lemma ga_user_salesman:
  assumes "n \<in> set (fst (ga_user f d now v))"
  shows "salesman_id n = v"
proof -
  from assms have "n \<in> set (ga_pushed f d now v)" using ga_user_subset by blast
  from ga_pushed_cases[OF this] show ?thesis by (auto simp: builder_salesman)
qed

lemma auto_user_salesman:
  assumes "n \<in> set (fst (auto_user f d now v))"
  shows "salesman_id n = v"
proof -
  from assms have "n \<in> set (auto_pushed f d now v)" using auto_user_subset by blast
  from auto_pushed_cases[OF this] show ?thesis by (auto simp: builder_salesman)
qed

lemma for_users_concat: "fst (for_users step us) = concat (map (\<lambda>u. fst (step u)) us)"
  by (induction us) (simp_all add: case_prod_beta)

lemma others_unchanged:
  assumes "\<And>v. v \<noteq> u \<Longrightarrow> step' v = step v"
    and "\<And>v n. n \<in> set (fst (step v)) \<Longrightarrow> salesman_id n = v"
    and "\<And>v n. n \<in> set (fst (step' v)) \<Longrightarrow> salesman_id n = v"
  shows "filter (\<lambda>n. salesman_id n \<noteq> u) (fst (for_users step' us))
       = filter (\<lambda>n. salesman_id n \<noteq> u) (fst (for_users step us))"
proof -
  have "filter (\<lambda>n. salesman_id n \<noteq> u) (fst (step' v)) = filter (\<lambda>n. salesman_id n \<noteq> u) (fst (step v))" for v
  proof (cases "v = u")
    case True
    have "filter (\<lambda>n. salesman_id n \<noteq> u) (fst (step' u)) = []"
      using assms(3) by (auto simp: filter_empty_conv)
    moreover have "filter (\<lambda>n. salesman_id n \<noteq> u) (fst (step u)) = []"
      using assms(2) by (auto simp: filter_empty_conv)
    ultimately show ?thesis using True by simp
  next
    case False
    then show ?thesis using assms(1) by simp
  qed
  then show ?thesis by (simp add: for_users_concat filter_concat comp_def)
qed

lemma overdue_query_fails_simps:
  "role_fault overdue_query_fails ''u1'' = NoFault"
  "overdue_fault overdue_query_fails ''u1'' = ErrorResult ''timeout''"
  "stale_fault overdue_query_fails ''u1'' = NoFault"
  "uncalled_fault overdue_query_fails ''u1'' = NoFault"
  "none_thrown overdue_query_fails ''u1''" "\<not> user_ok overdue_query_fails ''u1''"
  "user_email_of overdue_query_fails d ''u1'' = user_email_of no_faults d ''u1''"
  by (simp_all add: overdue_query_fails_def with_user_faults_def no_faults_def none_thrown_def
      user_ok_def thrown_def user_email_of_def)

lemma two_salesmen_users: "uniqueUserIds two_salesmen = [''u1'', ''u2'']"
  by (simp add: uniqueUserIds_def unique_def two_salesmen_def example_db_def open_lead_def
      other_lead_def example_lead_def)

lemma two_salesmen_buckets:
  "overdueLeads two_salesmen ''u1'' (100 * day) = [open_lead]"
  "staleLeads two_salesmen ''u1'' (100 * day) = [open_lead]"
  "uncalledLeads two_salesmen ''u1'' (100 * day) = []"
  "overdueLeads two_salesmen ''u2'' (100 * day) = [other_lead]"
  "staleLeads two_salesmen ''u2'' (100 * day) = [other_lead]"
  "uncalledLeads two_salesmen ''u2'' (100 * day) = []"
  by (simp_all add: overdueLeads_def staleLeads_def uncalledLeads_def two_salesmen_def
      example_db_def open_lead_def other_lead_def example_lead_def fourDaysAgo_def
      twoWeeksAgo_def day_def)

lemma two_salesmen_emails:
  "user_email_of no_faults two_salesmen ''u1'' = ''jukka@envaire.com''"
  "user_email_of overdue_query_fails two_salesmen ''u1'' = ''jukka@envaire.com''"
  "user_email_of email_lookup_fails two_salesmen ''u1'' = ''user-u1@unknown.com''"
  "user_email_of f two_salesmen ''u2'' = ''user-u2@unknown.com''"
  by (simp_all add: user_email_of_def no_faults_def overdue_query_fails_def email_lookup_fails_def
      with_user_faults_def single_role_def two_salesmen_def example_db_def email_or_default_def)

lemma email_lookup_fails_simps:
  "role_fault email_lookup_fails ''u1'' = ErrorResult ''denied''"
  "user_ok email_lookup_fails ''u1''"
  by (simp_all add: email_lookup_fails_def with_user_faults_def no_faults_def user_ok_def
      thrown_def)

lemma other_salesman_ok:
  "user_ok overdue_query_fails ''u2''" "none_thrown overdue_query_fails ''u2''"
  "overdue_fault overdue_query_fails ''u2'' = NoFault"
  "stale_fault overdue_query_fails ''u2'' = NoFault"
  by (simp_all add: overdue_query_fails_def with_user_faults_def no_faults_def user_ok_def
      none_thrown_def thrown_def)

lemma two_salesmen_ga_users:
  "ga_user overdue_query_fails two_salesmen (100 * day) ''u1''
     = ([], [(''Error fetching overdue leads for jukka@envaire.com:'', ''timeout'')])"
  "ga_user overdue_query_fails two_salesmen (100 * day) ''u2''
     = ([ga_overdue_notification ''u2'' ''user-u2@unknown.com'' [select_contact_call other_lead],
         ga_stale_notification ''u2'' ''user-u2@unknown.com'' [select_contact_call other_lead]], [])"
  "ga_user email_lookup_fails two_salesmen (100 * day) ''u1''
     = ([ga_overdue_notification ''u1'' ''user-u1@unknown.com'' [select_contact_call open_lead],
         ga_stale_notification ''u1'' ''user-u1@unknown.com'' [select_contact_call open_lead]], [])"
    apply (simp add: ga_user_def overdue_query_fails_simps two_salesmen_emails)
   apply (simp add: ga_user_ok other_salesman_ok ga_pushed_def two_salesmen_buckets two_salesmen_emails)
  apply (simp add: ga_user_ok email_lookup_fails_simps ga_pushed_def two_salesmen_buckets two_salesmen_emails)
  done

lemma two_salesmen_auto_users:
  "auto_user overdue_query_fails two_salesmen (100 * day) ''u1''
     = ([auto_stale_notification ''u1'' ''jukka@envaire.com'' [select_contact open_lead]], [])"
  "auto_user overdue_query_fails two_salesmen (100 * day) ''u2''
     = ([auto_overdue_notification ''u2'' ''user-u2@unknown.com'' [select_contact other_lead],
         auto_stale_notification ''u2'' ''user-u2@unknown.com'' [select_contact other_lead]], [])"
   apply (simp add: auto_user_ok overdue_query_fails_simps auto_pushed_def two_salesmen_buckets two_salesmen_emails)
  apply (simp add: auto_user_ok other_salesman_ok auto_pushed_def two_salesmen_buckets two_salesmen_emails)
  done

lemma two_salesmen_generated:
  "ga_generated overdue_query_fails two_salesmen (100 * day)
     = [ga_overdue_notification ''u2'' ''user-u2@unknown.com'' [select_contact_call other_lead],
        ga_stale_notification ''u2'' ''user-u2@unknown.com'' [select_contact_call other_lead]]"
  "auto_generated overdue_query_fails two_salesmen (100 * day)
     = [auto_stale_notification ''u1'' ''jukka@envaire.com'' [select_contact open_lead],
        auto_overdue_notification ''u2'' ''user-u2@unknown.com'' [select_contact other_lead],
        auto_stale_notification ''u2'' ''user-u2@unknown.com'' [select_contact other_lead]]"
  by (simp_all add: ga_generated_def auto_generated_def two_salesmen_users two_salesmen_ga_users
      two_salesmen_auto_users)

lemma two_salesmen_status:
  "http_status (response (generate_admin_notifications ''POST'' overdue_query_fails (100 * day) two_salesmen)) = 200"
  "http_status (response (auto_generate_notifications ''POST'' overdue_query_fails (100 * day) two_salesmen)) = 200"
  by (simp_all add: ga_status auto_status overdue_query_fails_def thrown_def)

text \<open>
  Claim C7, as the code has it. Replacing the outcomes of the queries for one salesman
  changes the loop body's result for no other salesman and none of the notifications
  generated for the other salesmen, at every call site, and when the bulk insert succeeds
  it does not change the HTTP status. In generate-admin-notifications a lead query of the
  salesman that fails, or any of the salesman's calls that rejects, is logged with one
  line and nothing is pushed for the salesman; otherwise nothing is logged and the
  salesman's notifications are pushed, also when the email lookup resolved with an
  error, and then under the default address. In the other two generators only a call
  that rejects is logged and skips the salesman; a query that resolves with an error is
  not logged and removes the notification of its bucket alone.
\<close>

theorem salesman_failure_isolated:
  "(\<forall>v. v \<noteq> u \<longrightarrow>
       ga_user (with_user_faults f u r ov st un) d now v = ga_user f d now v
     \<and> auto_user (with_user_faults f u r ov st un) d now v = auto_user f d now v)
   \<and> filter (\<lambda>n. salesman_id n \<noteq> u) (ga_generated (with_user_faults f u r ov st un) d now)
       = filter (\<lambda>n. salesman_id n \<noteq> u) (ga_generated f d now)
   \<and> filter (\<lambda>n. salesman_id n \<noteq> u) (auto_generated (with_user_faults f u r ov st un) d now)
       = filter (\<lambda>n. salesman_id n \<noteq> u) (auto_generated f d now)
   \<and> (insert_fault f = NoFault \<longrightarrow>
         http_status (response (generate_admin_notifications m (with_user_faults f u r ov st un) now d))
           = http_status (response (generate_admin_notifications m f now d))
       \<and> http_status (response (auto_generate_notifications m (with_user_faults f u r ov st un) now d))
           = http_status (response (auto_generate_notifications m f now d)))
   \<and> (\<not> user_ok f u \<longrightarrow> fst (ga_user f d now u) = [] \<and> length (snd (ga_user f d now u)) = 1)
   \<and> (user_ok f u \<longrightarrow> ga_user f d now u = (ga_pushed f d now u, []))
   \<and> (role_fault f u \<noteq> NoFault \<longrightarrow> user_email_of f d u = ''user-'' @ u @ ''@unknown.com'')
   \<and> (none_thrown f u \<longrightarrow> auto_user f d now u = (auto_pushed f d now u, []))
   \<and> (\<not> none_thrown f u \<longrightarrow> fst (auto_user f d now u) = [] \<and> length (snd (auto_user f d now u)) = 1)"
proof (intro conjI allI impI)
  show "filter (\<lambda>n. salesman_id n \<noteq> u) (ga_generated (with_user_faults f u r ov st un) d now)
       = filter (\<lambda>n. salesman_id n \<noteq> u) (ga_generated f d now)"
    unfolding ga_generated_def
    by (rule others_unchanged) (simp_all add: with_user_faults_other ga_user_salesman)
  show "filter (\<lambda>n. salesman_id n \<noteq> u) (auto_generated (with_user_faults f u r ov st un) d now)
       = filter (\<lambda>n. salesman_id n \<noteq> u) (auto_generated f d now)"
    unfolding auto_generated_def
    by (rule others_unchanged) (simp_all add: with_user_faults_other auto_user_salesman)
next
  fix v assume "v \<noteq> u"
  then show "ga_user (with_user_faults f u r ov st un) d now v = ga_user f d now v"
    "auto_user (with_user_faults f u r ov st un) d now v = auto_user f d now v"
    by (simp_all add: with_user_faults_other)
next
  assume "insert_fault f = NoFault"
  then show "http_status (response (generate_admin_notifications m (with_user_faults f u r ov st un) now d))
           = http_status (response (generate_admin_notifications m f now d))"
    "http_status (response (auto_generate_notifications m (with_user_faults f u r ov st un) now d))
           = http_status (response (auto_generate_notifications m f now d))"
    by (simp_all add: ga_status auto_status)
next
  assume "\<not> user_ok f u"
  then show "fst (ga_user f d now u) = []" "length (snd (ga_user f d now u)) = 1"
    by (simp_all add: ga_user_not_ok)
next
  assume "user_ok f u"
  then show "ga_user f d now u = (ga_pushed f d now u, [])" by (rule ga_user_ok)
next
  assume "role_fault f u \<noteq> NoFault"
  then show "user_email_of f d u = ''user-'' @ u @ ''@unknown.com''"
    by (simp add: user_email_of_def email_or_default_def)
next
  assume "none_thrown f u"
  then show "auto_user f d now u = (auto_pushed f d now u, [])" by (rule auto_user_ok)
next
  assume "\<not> none_thrown f u"
  then show "fst (auto_user f d now u) = []" "length (snd (auto_user f d now u)) = 1"
    by (simp_all add: auto_user_thrown)
qed

text \<open>
  Two salesmen. When the overdue query of \<open>u1\<close> fails, generate-admin-notifications logs
  it and skips \<open>u1\<close>, the notifications of \<open>u2\<close> are generated as without the
  failure, and both functions answer with status 200. When the email lookup of \<open>u1\<close>
  fails, nothing is logged and the notifications of \<open>u1\<close> carry the default address.
\<close>

theorem salesman_failure_isolated_witness:
  "\<not> user_ok overdue_query_fails ''u1''
   \<and> ga_user overdue_query_fails two_salesmen (100 * day) ''u1''
       = ([], [(''Error fetching overdue leads for jukka@envaire.com:'', ''timeout'')])
   \<and> ga_user overdue_query_fails two_salesmen (100 * day) ''u2''
       = ga_user no_faults two_salesmen (100 * day) ''u2''
   \<and> filter (\<lambda>n. salesman_id n \<noteq> ''u1'') (ga_generated no_faults two_salesmen (100 * day))
       = [ga_overdue_notification ''u2'' ''user-u2@unknown.com'' [select_contact_call other_lead],
          ga_stale_notification ''u2'' ''user-u2@unknown.com'' [select_contact_call other_lead]]
   \<and> ga_generated overdue_query_fails two_salesmen (100 * day)
       = [ga_overdue_notification ''u2'' ''user-u2@unknown.com'' [select_contact_call other_lead],
          ga_stale_notification ''u2'' ''user-u2@unknown.com'' [select_contact_call other_lead]]
   \<and> filter (\<lambda>n. salesman_id n \<noteq> ''u1'') (auto_generated no_faults two_salesmen (100 * day))
       = [auto_overdue_notification ''u2'' ''user-u2@unknown.com'' [select_contact other_lead],
          auto_stale_notification ''u2'' ''user-u2@unknown.com'' [select_contact other_lead]]
   \<and> auto_generated overdue_query_fails two_salesmen (100 * day)
       = [auto_stale_notification ''u1'' ''jukka@envaire.com'' [select_contact open_lead],
          auto_overdue_notification ''u2'' ''user-u2@unknown.com'' [select_contact other_lead],
          auto_stale_notification ''u2'' ''user-u2@unknown.com'' [select_contact other_lead]]
   \<and> http_status (response (generate_admin_notifications ''POST'' no_faults (100 * day) two_salesmen)) = 200
   \<and> http_status (response (generate_admin_notifications ''POST'' overdue_query_fails (100 * day) two_salesmen)) = 200
   \<and> http_status (response (auto_generate_notifications ''POST'' overdue_query_fails (100 * day) two_salesmen)) = 200
   \<and> user_ok email_lookup_fails ''u1'' \<and> role_fault email_lookup_fails ''u1'' = ErrorResult ''denied''
   \<and> ga_user email_lookup_fails two_salesmen (100 * day) ''u1''
       = ([ga_overdue_notification ''u1'' ''user-u1@unknown.com'' [select_contact_call open_lead],
           ga_stale_notification ''u1'' ''user-u1@unknown.com'' [select_contact_call open_lead]], [])"
proof -
  have ne: "''u2'' \<noteq> ''u1''" by simp
  have ins: "insert_fault no_faults = NoFault" by simp
  have f1: "filter (\<lambda>n. salesman_id n \<noteq> ''u1'')
      [ga_overdue_notification ''u2'' ''user-u2@unknown.com'' [select_contact_call other_lead],
       ga_stale_notification ''u2'' ''user-u2@unknown.com'' [select_contact_call other_lead]]
    = [ga_overdue_notification ''u2'' ''user-u2@unknown.com'' [select_contact_call other_lead],
       ga_stale_notification ''u2'' ''user-u2@unknown.com'' [select_contact_call other_lead]]"
    by (simp add: builder_salesman)
  have f2: "filter (\<lambda>n. salesman_id n \<noteq> ''u1'')
      [auto_stale_notification ''u1'' ''jukka@envaire.com'' [select_contact open_lead],
       auto_overdue_notification ''u2'' ''user-u2@unknown.com'' [select_contact other_lead],
       auto_stale_notification ''u2'' ''user-u2@unknown.com'' [select_contact other_lead]]
    = [auto_overdue_notification ''u2'' ''user-u2@unknown.com'' [select_contact other_lead],
       auto_stale_notification ''u2'' ''user-u2@unknown.com'' [select_contact other_lead]]"
    by (simp add: builder_salesman)
  note i1 = salesman_failure_isolated[where f = no_faults and u = "''u1''" and r = NoFault
      and ov = "ErrorResult ''timeout''" and st = NoFault and un = NoFault and d = two_salesmen
      and now = "100 * day" and m = "''POST''"]
  note i2 = salesman_failure_isolated[where f = overdue_query_fails and u = "''u1''" and d = two_salesmen
      and now = "100 * day"]
  note i3 = salesman_failure_isolated[where f = email_lookup_fails and u = "''u1''" and d = two_salesmen
      and now = "100 * day"]
  have a: "ga_user overdue_query_fails two_salesmen (100 * day) ''u2''
       = ga_user no_faults two_salesmen (100 * day) ''u2''"
    unfolding overdue_query_fails_def
    by (rule i1[THEN conjunct1, rule_format, OF ne, THEN conjunct1])
  have "filter (\<lambda>n. salesman_id n \<noteq> ''u1'') (ga_generated overdue_query_fails two_salesmen (100 * day))
      = filter (\<lambda>n. salesman_id n \<noteq> ''u1'') (ga_generated no_faults two_salesmen (100 * day))"
    unfolding overdue_query_fails_def by (rule i1[THEN conjunct2, THEN conjunct1])
  then have b: "filter (\<lambda>n. salesman_id n \<noteq> ''u1'') (ga_generated no_faults two_salesmen (100 * day))
       = [ga_overdue_notification ''u2'' ''user-u2@unknown.com'' [select_contact_call other_lead],
          ga_stale_notification ''u2'' ''user-u2@unknown.com'' [select_contact_call other_lead]]"
    by (simp only: two_salesmen_generated f1)
  have "filter (\<lambda>n. salesman_id n \<noteq> ''u1'') (auto_generated overdue_query_fails two_salesmen (100 * day))
      = filter (\<lambda>n. salesman_id n \<noteq> ''u1'') (auto_generated no_faults two_salesmen (100 * day))"
    unfolding overdue_query_fails_def
    by (rule i1[THEN conjunct2, THEN conjunct2, THEN conjunct1])
  then have c: "filter (\<lambda>n. salesman_id n \<noteq> ''u1'') (auto_generated no_faults two_salesmen (100 * day))
       = [auto_overdue_notification ''u2'' ''user-u2@unknown.com'' [select_contact other_lead],
          auto_stale_notification ''u2'' ''user-u2@unknown.com'' [select_contact other_lead]]"
    by (simp only: two_salesmen_generated f2)
  have "http_status (response (generate_admin_notifications ''POST'' overdue_query_fails (100 * day) two_salesmen))
      = http_status (response (generate_admin_notifications ''POST'' no_faults (100 * day) two_salesmen))"
    unfolding overdue_query_fails_def
    by (rule i1[THEN conjunct2, THEN conjunct2, THEN conjunct2, THEN conjunct1, rule_format,
          OF ins, THEN conjunct1])
  then have d: "http_status (response (generate_admin_notifications ''POST'' no_faults (100 * day) two_salesmen)) = 200"
    by (simp only: two_salesmen_status)
  have e: "ga_user email_lookup_fails two_salesmen (100 * day) ''u1''
       = (ga_pushed email_lookup_fails two_salesmen (100 * day) ''u1'', [])"
    by (rule i3[THEN conjunct2, THEN conjunct2, THEN conjunct2, THEN conjunct2, THEN conjunct2,
          THEN conjunct1, rule_format, OF email_lookup_fails_simps(2)])
  have g: "fst (ga_user overdue_query_fails two_salesmen (100 * day) ''u1'') = []
     \<and> length (snd (ga_user overdue_query_fails two_salesmen (100 * day) ''u1'')) = 1"
    by (rule i2[THEN conjunct2, THEN conjunct2, THEN conjunct2, THEN conjunct2, THEN conjunct1,
          rule_format, OF overdue_query_fails_simps(6)])
  show ?thesis
    by (intro conjI)
       (rule overdue_query_fails_simps(6) two_salesmen_ga_users a b c d two_salesmen_generated
          two_salesmen_status email_lookup_fails_simps)+
qed

text \<open>
  Claim C7 as the spec states it fails at auto-generate-notifications: the overdue query of
  the salesman fails, nothing is logged and the salesman is not skipped, the stale
  notification is still pushed.
\<close>

theorem salesman_failure_counterexample:
  "auto_user overdue_query_fails closed_example (100 * day) ''u1''
     = ([auto_stale_notification ''u1'' ''jukka@envaire.com'' [select_contact open_lead]], [])"
  by (simp add: auto_user_ok overdue_query_fails_simps auto_pushed_def closed_example_buckets)
     (simp add: closed_example_def email_example)


section \<open>Unread rows\<close>

lemma read_example_tables:
  "leads read_example = leads two_leads" "user_roles read_example = user_roles two_leads"
  "admin_notifications read_example = [read_row]" "next_id read_example = 7"
  by (simp_all add: read_example_def)

lemma read_example_generated:
  "ga_generated no_faults read_example = ga_generated no_faults two_leads"
  "auto_generated no_faults read_example = auto_generated no_faults two_leads"
  by (rule generated_tables; simp add: read_example_tables)+

lemma stamp_one: "stamp now k (unread [n]) = [\<lparr>row_id = Suc k, row_created_at = now, is_read = False, row = n\<rparr>]"
  by (simp add: unread_def)

lemma read_example_passes:
  "admin_notifications (ga_pass (100 * day) read_example) =
     [read_row,
      \<lparr>row_id = 8, row_created_at = 100 * day, is_read = False,
       row = ga_overdue_notification ''u1'' ''jukka@envaire.com'' [select_contact_call (hd (leads two_leads))]\<rparr>]"
  "admin_notifications (auto_pass (100 * day) read_example) =
     [\<lparr>row_id = 8, row_created_at = 100 * day, is_read = False,
       row = auto_overdue_notification ''u1'' ''jukka@envaire.com'' [select_contact (hd (leads two_leads))]\<rparr>]"
  "admin_notifications (screen_pass (100 * day) read_example) =
     [\<lparr>row_id = 8, row_created_at = 100 * day, is_read = False,
       row = auto_overdue_notification ''u1'' ''jukka@envaire.com'' [select_contact (hd (leads two_leads))]\<rparr>]"
  by (simp_all add: ga_pass_table auto_pass_table screen_pass_table read_example_generated
        two_leads_generated read_example_tables stamp_one)
     (simp_all add: read_row_def day_def nil_uuid_def)

lemma read_example_afk:
  "map is_read (admin_notifications (fst (afkCheckInterval True afk_example NoFault (100 * day) read_example)))
       = [True, False]"
  by (simp add: afk_effect read_example_tables afk_example_def unread_def read_row_def)

text \<open>
  Claim C9. After a request to either HTTP function, after the regeneration of the admin
  screen and after an AFK check, whatever fails, every row of the table that is read was in
  the table before, as it is: the rows a generation path inserts are unread and it marks
  no row read. Marking a row as read sets \<^verbatim>\<open>is_read\<close> on the rows with that id,
  marking all as read leaves every row read, and deleting a notification changes no row
  that stays.
\<close>

theorem generated_rows_unread:
  "(\<forall>r \<in> set (admin_notifications (db_after (generate_admin_notifications m f now d))).
       is_read r \<longrightarrow> r \<in> set (admin_notifications d))
   \<and> (\<forall>r \<in> set (admin_notifications (db_after (auto_generate_notifications m f now d))).
       is_read r \<longrightarrow> r \<in> set (admin_notifications d))
   \<and> (\<forall>r \<in> set (admin_notifications (fst (generateNotifications f now d))).
       is_read r \<longrightarrow> r \<in> set (admin_notifications d))
   \<and> (\<forall>r \<in> set (admin_notifications (fst (afkCheckInterval isAdmin salesmen ins now d))).
       is_read r \<longrightarrow> r \<in> set (admin_notifications d))
   \<and> (\<forall>r \<in> set (admin_notifications d). row_id r = i \<longrightarrow>
       r\<lparr>is_read := True\<rparr> \<in> set (admin_notifications (markAsRead NoFault i d)))
   \<and> (\<forall>r \<in> set (admin_notifications (markAllAsRead NoFault d)). is_read r)
   \<and> (\<forall>r \<in> set (admin_notifications (handleConfirmDelete del i d)).
       r \<in> set (admin_notifications d))"
proof (intro conjI ballI impI)
  fix r assume "r \<in> set (admin_notifications (db_after (generate_admin_notifications m f now d)))" "is_read r"
  then show "r \<in> set (admin_notifications d)" by (rule ga_read_rows)
next
  fix r assume "r \<in> set (admin_notifications (db_after (auto_generate_notifications m f now d)))" "is_read r"
  then show "r \<in> set (admin_notifications d)" by (rule auto_read_rows)
next
  fix r assume "r \<in> set (admin_notifications (fst (generateNotifications f now d)))" "is_read r"
  then show "r \<in> set (admin_notifications d)" by (rule screen_read_rows)
next
  fix r assume "r \<in> set (admin_notifications (fst (afkCheckInterval isAdmin salesmen ins now d)))" "is_read r"
  then show "r \<in> set (admin_notifications d)" by (rule afk_read_rows)
next
  fix r assume "r \<in> set (admin_notifications d)" "row_id r = i"
  then show "r\<lparr>is_read := True\<rparr> \<in> set (admin_notifications (markAsRead NoFault i d))"
    by (force simp: markAsRead_def)
next
  fix r assume "r \<in> set (admin_notifications (markAllAsRead NoFault d))"
  then show "is_read r" by (auto simp: markAllAsRead_def)
next
  fix r assume "r \<in> set (admin_notifications (handleConfirmDelete del i d))"
  then show "r \<in> set (admin_notifications d)"
    by (cases "del = NoFault") (simp_all add: handleConfirmDelete_def)
qed


text \<open>A table with one read row: each path adds unread rows only.\<close>

theorem generated_rows_unread_witness:
  "map is_read (admin_notifications read_example) = [True]
   \<and> map is_read (admin_notifications (ga_pass (100 * day) read_example)) = [True, False]
   \<and> map is_read (admin_notifications (auto_pass (100 * day) read_example)) = [False]
   \<and> map is_read (admin_notifications (screen_pass (100 * day) read_example)) = [False]
   \<and> map is_read (admin_notifications (fst (afkCheckInterval True afk_example NoFault (100 * day) read_example)))
       = [True, False]
   \<and> map is_read (admin_notifications (markAsRead NoFault 8 (ga_pass (100 * day) read_example)))
       = [True, True]
   \<and> map is_read (admin_notifications (markAllAsRead NoFault (ga_pass (100 * day) read_example)))
       = [True, True]"
proof -
  have 1: "map is_read (admin_notifications read_example) = [True]"
    by (simp add: read_example_tables read_row_def)
  have 2: "map is_read (admin_notifications (ga_pass (100 * day) read_example)) = [True, False]"
    "map is_read (admin_notifications (auto_pass (100 * day) read_example)) = [False]"
    "map is_read (admin_notifications (screen_pass (100 * day) read_example)) = [False]"
    by (simp_all add: read_example_passes read_row_def)
  have 3: "map is_read (admin_notifications (markAsRead NoFault 8 (ga_pass (100 * day) read_example)))
       = [True, True]"
    "map is_read (admin_notifications (markAllAsRead NoFault (ga_pass (100 * day) read_example)))
       = [True, True]"
    by (simp_all add: markAsRead_def markAllAsRead_def read_example_passes read_row_def)
  from 1 2 3 read_example_afk
    generated_rows_unread[where m = "''POST''" and f = no_faults and now = "100 * day" and d = read_example
      and isAdmin = True and salesmen = afk_example and ins = NoFault and i = 7
      and del = NoFault]
  show ?thesis by blast
qed

end
